theory Spec2Isabelle
  imports Main "HOL-Library.Word"
begin

unbundle bit_operations_syntax

section \<open>Software MMU of KVM/ARM: guest walker and shadow page tables\<close>

text \<open>
  A shallow embedding of \<^verbatim>\<open>arch/arm/kvm/arm_mmu.c\<close> and of the fault codes of
  \<^verbatim>\<open>arch/arm/include/asm/kvm_arm.h\<close>. The file is modelled as it compiles with
  \<^verbatim>\<open>__LINUX_ARM_ARCH__ >= 6\<close> (the VMSAv6 branches of every \<^verbatim>\<open>#if\<close>), the
  configuration that contains \<^verbatim>\<open>trans_coarse_entry_xp\<close> and the \<^verbatim>\<open>apx\<close>/\<^verbatim>\<open>xn\<close>
  fields of \<^verbatim>\<open>struct map_info\<close>.
\<close>

subsection \<open>Machine types\<close>

type_synonym u8 = "8 word"
type_synonym u32 = "32 word"
type_synonym u64 = "64 word"

text \<open>\<^verbatim>\<open>gva_t\<close> is an unsigned long (32 bits on ARM); \<^verbatim>\<open>gpa_t\<close>, \<^verbatim>\<open>gfn_t\<close> and
  \<^verbatim>\<open>pfn_t\<close> are 64-bit.\<close>

type_synonym gva_t = u32
type_synonym gpa_t = u64
type_synonym gfn_t = u64
type_synonym pfn_t = u64

text \<open>
  A C function either returns, or stops the kernel in \<^verbatim>\<open>BUG()\<close> / \<^verbatim>\<open>BUG_ON()\<close>, or
  dereferences a pointer into memory that is not a live table (freed or never allocated).
\<close>

datatype 'a outcome = Ret 'a | Bug | Invalid_access

subsection \<open>Constants of \<^verbatim>\<open>arm_mmu.c\<close> and \<^verbatim>\<open>kvm_arm.h\<close>\<close>

definition SECTION_BASE_MASK :: u32 where "SECTION_BASE_MASK = 0xfff00000"
definition SECTION_BASE_INDEX_MASK :: u32 where "SECTION_BASE_INDEX_MASK = 0x000fffff"
definition SUP_BASE_INDEX_MASK :: u32 where "SUP_BASE_INDEX_MASK = 0x00ffffff"

definition VA_L1_IDX_MASK :: u32 where "VA_L1_IDX_MASK = push_bit 20 0xfff"
definition VA_L1_IDX_SHIFT :: nat where "VA_L1_IDX_SHIFT = 18"
definition VA_L2_IDX_MASK :: u32 where "VA_L2_IDX_MASK = push_bit 12 0xff"
definition VA_L2_IDX_SHIFT :: nat where "VA_L2_IDX_SHIFT = 10"

definition L1_TABLE_ENTRIES :: nat where "L1_TABLE_ENTRIES = 2 ^ 12"
definition L1_COARSE_MASK :: u32 where "L1_COARSE_MASK = NOT 0x3ff"
definition L1_DOMAIN_SHIFT :: nat where "L1_DOMAIN_SHIFT = 5"
definition L1_DOMAIN_MASK :: u32 where "L1_DOMAIN_MASK = push_bit L1_DOMAIN_SHIFT 0xf"
definition L1_SECTION_AP_SHIFT :: nat where "L1_SECTION_AP_SHIFT = 10"
definition L1_SECTION_AP_MASK :: u32 where "L1_SECTION_AP_MASK = push_bit L1_SECTION_AP_SHIFT 0x3"

definition L2_TABLE_ENTRIES :: nat where "L2_TABLE_ENTRIES = 256"

definition L2_TYPE_MASK :: u32 where "L2_TYPE_MASK = 0x3"
definition L2_TYPE_FAULT :: u32 where "L2_TYPE_FAULT = 0x0"
definition L2_TYPE_LARGE :: u32 where "L2_TYPE_LARGE = 0x1"
definition L2_TYPE_SMALL :: u32 where "L2_TYPE_SMALL = 0x2"
definition L2_TYPE_EXT_SMALL :: u32 where "L2_TYPE_EXT_SMALL = 0x3"
definition L2_XP_TYPE_EXT_SMALL :: u32 where "L2_XP_TYPE_EXT_SMALL = 0x2"

definition L2_LARGE_BASE_MASK :: u32 where "L2_LARGE_BASE_MASK = push_bit 16 0xffff"
definition VA_LARGE_INDEX_MASK :: u32 where "VA_LARGE_INDEX_MASK = 0xffff"
definition L2_SMALL_BASE_MASK :: u32 where "L2_SMALL_BASE_MASK = push_bit 12 0xfffff"
definition VA_SMALL_INDEX_MASK :: u32 where "VA_SMALL_INDEX_MASK = 0xfff"
definition L2_EXT_SMALL_BASE_MASK :: u32 where "L2_EXT_SMALL_BASE_MASK = push_bit 12 0xfffff"
definition VA_EXT_SMALL_INDEX_MASK :: u32 where "VA_EXT_SMALL_INDEX_MASK = 0xfff"

definition L1_SECTION_TYPE_MASK :: u32 where "L1_SECTION_TYPE_MASK = push_bit 18 1"
definition L1_SECTION_TYPE_SECTION :: u32 where "L1_SECTION_TYPE_SECTION = push_bit 18 0"
definition L1_SUP_BASE_MASK :: u32 where "L1_SUP_BASE_MASK = push_bit 24 0xff"
definition L1_SUP_BASE_LOW_SHIFT :: nat where "L1_SUP_BASE_LOW_SHIFT = 20"
definition L1_SUP_BASE_HIGH_SHIFT :: nat where "L1_SUP_BASE_HIGH_SHIFT = 5"

definition FSR_TYPE_MASK :: u32 where "FSR_TYPE_MASK = 0xf"
definition FSR_TRANS_SEC :: int where "FSR_TRANS_SEC = 0x5"
definition FSR_TRANS_PAGE :: int where "FSR_TRANS_PAGE = 0x7"
definition FSR_DOMAIN_SEC :: int where "FSR_DOMAIN_SEC = 0x9"
definition FSR_DOMAIN_PAG :: int where "FSR_DOMAIN_PAG = 0xb"
definition FSR_PERM_SEC :: int where "FSR_PERM_SEC = 0xd"
definition FSR_PERM_PAGE :: int where "FSR_PERM_PAGE = 0xf"

definition EXCEPTION_VECTOR_HIGH :: u32 where "EXCEPTION_VECTOR_HIGH = 0xffff0000"
definition EXCEPTION_VECTOR_LOW :: u32 where "EXCEPTION_VECTOR_LOW = 0x00000000"

definition ARM_EXCEPTION_PREF_ABORT :: u32 where "ARM_EXCEPTION_PREF_ABORT = 3"
definition ARM_EXCEPTION_DATA_ABORT :: u32 where "ARM_EXCEPTION_DATA_ABORT = 4"

subsection \<open>Declarations taken from headers that are not among the sources\<close>

text \<open>Modelled from the spec: the page size of \<^verbatim>\<open>asm/page.h\<close> (\<^verbatim>\<open>PAGE_SHIFT\<close>,
  \<^verbatim>\<open>PAGE_MASK\<close>), 4 KiB frames, "frame = a >> 12".\<close>

definition PAGE_SHIFT :: nat where "PAGE_SHIFT = 12"
definition PAGE_MASK :: u32 where "PAGE_MASK = 0xfffff000"

text \<open>Modelled from the spec: the error numbers of \<^verbatim>\<open>errno.h\<close> that the file returns
  negated (\<^verbatim>\<open>-EINVAL\<close> for an illegal request, \<^verbatim>\<open>-EFAULT\<close>, and \<^verbatim>\<open>-ENOMEM\<close> for an
  allocation failure), with their Linux values.\<close>

definition EINVAL :: int where "EINVAL = 22"
definition EFAULT :: int where "EFAULT = 14"
definition ENOMEM :: int where "ENOMEM = 12"

text \<open>Modelled from the spec: the level-1 descriptor types of \<^verbatim>\<open>asm/kvm_mmu.h\<close>
  (\<^verbatim>\<open>L1_TYPE_MASK\<close>, \<^verbatim>\<open>L1_TYPE_FAULT\<close>, \<^verbatim>\<open>L1_TYPE_COARSE\<close>, \<^verbatim>\<open>L1_TYPE_SECTION\<close>),
  which the spec names Fault, Coarse and Section, "classified by the low-order type bits";
  the values are those of the ARM short-descriptor format.\<close>

definition L1_TYPE_MASK :: u32 where "L1_TYPE_MASK = 0x3"
definition L1_TYPE_FAULT :: u32 where "L1_TYPE_FAULT = 0x0"
definition L1_TYPE_COARSE :: u32 where "L1_TYPE_COARSE = 0x1"
definition L1_TYPE_SECTION :: u32 where "L1_TYPE_SECTION = 0x2"

text \<open>Modelled from the spec: the domain classes of \<^verbatim>\<open>asm/domain.h\<close>
  (\<^verbatim>\<open>DOMAIN_NOACCESS\<close>, \<^verbatim>\<open>DOMAIN_CLIENT\<close>, \<^verbatim>\<open>DOMAIN_MANAGER\<close>), "2 bits per domain:
  No-Access / Client / Manager", with the encoding of the ARM domain access control
  register.\<close>

definition DOMAIN_NOACCESS :: u32 where "DOMAIN_NOACCESS = 0"
definition DOMAIN_CLIENT :: u32 where "DOMAIN_CLIENT = 1"
definition DOMAIN_MANAGER :: u32 where "DOMAIN_MANAGER = 3"

text \<open>Modelled from the spec: the macro \<^verbatim>\<open>domain_val(dom, type)\<close> of \<^verbatim>\<open>asm/domain.h\<close>,
  which places a 2-bit class in the field of domain \<^verbatim>\<open>dom\<close>:
  \<^verbatim>\<open>((type) << (2*(dom)))\<close>.\<close>

definition domain_val :: "u8 \<Rightarrow> u32 \<Rightarrow> u32" where
  "domain_val d t = push_bit (2 * unat d) t"

text \<open>Modelled from the spec: the access rights \<^verbatim>\<open>KVM_AP_NONE\<close>, \<^verbatim>\<open>KVM_AP_RDONLY\<close>,
  \<^verbatim>\<open>KVM_AP_RDWRITE\<close> of \<^verbatim>\<open>asm/kvm_mmu.h\<close> (none, read-only, read-write). The file only
  compares them for equality, so their numeric values play no role.\<close>

datatype kvm_ap = KVM_AP_NONE | KVM_AP_RDONLY | KVM_AP_RDWRITE

subsection \<open>Data model\<close>

text \<open>Modelled from the spec: \<^verbatim>\<open>struct map_info\<close> of \<^verbatim>\<open>asm/kvm_mmu.h\<close>, "a transient value
  object carrying {domain, access-permission nibble, apx bit, execute-never bit, cache
  bits}", with the field names the file uses.\<close>

record map_info =
  domain_number :: u8
  ap :: u8
  apx :: u8
  xn :: u8
  cache_bits :: u8

text \<open>
  The part of \<^verbatim>\<open>struct kvm_vcpu\<close> the file reads and writes. \<^verbatim>\<open>kvm_mmu_enabled(vcpu)\<close> and
  \<^verbatim>\<open>kvm_mmu_xp(vcpu)\<close> are macros of a missing header over the guest's control register;
  they are carried as the two flags \<open>mmu_enabled\<close> and \<open>mmu_xp\<close>. \<open>l2_unused_pt\<close> is the
  pointer to the next unused 1 KiB sub-table: a frame number and a sub-table slot (0..3).
  \<open>shadow_pgtable\<close> stands for \<^verbatim>\<open>vcpu->arch.shadow_pgtable->pgd\<close>, the root in use, and
  \<open>guest_vectors\<close> for the frame number of the page \<^verbatim>\<open>vcpu->arch.guest_vectors\<close>.
\<close>

record vcpu =
  c3_DACR :: u32
  c5_IFSR :: u32
  c5_DFSR :: u32
  c6_FAR :: u32
  mmu_enabled :: bool
  mmu_xp :: bool
  guest_exception :: u32
  exception_pending :: u32
  host_vectors_high :: int
  l2_unused_pt :: "(u32 \<times> nat) option"
  shadow_pgtable :: nat
  guest_vectors :: pfn_t

text \<open>
  What the file takes from the rest of the kernel and from \<^verbatim>\<open>asm/kvm_mmu.h\<close>, as
  parameters: the guest-memory read \<^verbatim>\<open>kvm_read_guest\<close> (its \<^verbatim>\<open>int\<close> result and the word
  it leaves in the buffer), \<^verbatim>\<open>kvm_guest_ttbr\<close>, \<^verbatim>\<open>kvm_is_visible_gfn\<close>, the \<^verbatim>\<open>base_gfn\<close>
  of the memory slots, \<^verbatim>\<open>kvm_decode_ap\<close>, \<^verbatim>\<open>calc_aps\<close> (its result and the \<^verbatim>\<open>apx\<close> it
  stores), \<^verbatim>\<open>VCPU_DOMAIN_VAL\<close>, \<^verbatim>\<open>VCPU_HOST_EXCP_BASE\<close>, \<^verbatim>\<open>pfn_valid\<close>, and the constants
  \<^verbatim>\<open>KVM_SPECIAL_DOMAIN\<close>, \<^verbatim>\<open>SHARED_PAGE_BASE\<close>, \<^verbatim>\<open>TASK_SIZE\<close>, \<^verbatim>\<open>KVM_MEM_EXEC\<close>,
  \<^verbatim>\<open>EXCEPTION_PREFETCH\<close>, \<^verbatim>\<open>EXCEPTION_DATA\<close>.
\<close>

record kernel =
  kvm_read_guest :: "gpa_t \<Rightarrow> int \<times> u32"
  kvm_guest_ttbr :: "vcpu \<Rightarrow> gva_t \<Rightarrow> gpa_t"
  kvm_is_visible_gfn :: "gfn_t \<Rightarrow> bool"
  memslots_base_gfn :: "gfn_t list"
  kvm_decode_ap :: "vcpu \<Rightarrow> u8 \<Rightarrow> u8 \<Rightarrow> kvm_ap"
  calc_aps :: "kvm_ap \<Rightarrow> kvm_ap \<Rightarrow> u8 \<times> u8"
  VCPU_DOMAIN_VAL :: "vcpu \<Rightarrow> u8 \<Rightarrow> u32"
  VCPU_HOST_EXCP_BASE :: "vcpu \<Rightarrow> u32"
  pfn_valid :: "u32 \<Rightarrow> bool"
  KVM_SPECIAL_DOMAIN :: u8
  SHARED_PAGE_BASE :: u32
  TASK_SIZE :: u32
  KVM_MEM_EXEC :: u8
  EXCEPTION_PREFETCH :: u32
  EXCEPTION_DATA :: u32

subsection \<open>Guest walker\<close>

text \<open>\<^verbatim>\<open>invisible_gfn\<close>: the loop over the memory slots, then \<^verbatim>\<open>BUG_ON\<close>.\<close>

fun invisible_gfn_loop :: "(gfn_t \<Rightarrow> bool) \<Rightarrow> gfn_t \<Rightarrow> gfn_t list \<Rightarrow> gfn_t" where
  "invisible_gfn_loop vis gfn [] = gfn"
| "invisible_gfn_loop vis gfn (b # bs) =
     (if \<not> vis gfn then gfn else invisible_gfn_loop vis (b - 1) bs)"

definition invisible_gfn :: "kernel \<Rightarrow> gfn_t outcome" where
  "invisible_gfn k =
     (let gfn = invisible_gfn_loop (kvm_is_visible_gfn k) 0xffffff (memslots_base_gfn k)
      in if kvm_is_visible_gfn k gfn then Bug else Ret gfn)"

text \<open>\<^verbatim>\<open>get_guest_pgtable_entry\<close>: the result of \<^verbatim>\<open>kvm_read_guest\<close>.\<close>

definition get_guest_pgtable_entry :: "kernel \<Rightarrow> gpa_t \<Rightarrow> int \<times> u32" where
  "get_guest_pgtable_entry k table_entry = kvm_read_guest k table_entry"

text \<open>
  The level-2 decoders return the \<^verbatim>\<open>int\<close> result, the frame number stored through
  \<^verbatim>\<open>gfn\<close> (\<open>None\<close> when the function returns before storing one) and the updated
  \<^verbatim>\<open>map_info\<close>.
\<close>

definition page_gfn :: "u32 \<Rightarrow> u32 \<Rightarrow> gfn_t" where
  "page_gfn page_base page_index = drop_bit PAGE_SHIFT (ucast page_base OR ucast page_index :: u64)"

definition trans_coarse_entry_xp ::
  "kernel \<Rightarrow> vcpu \<Rightarrow> gva_t \<Rightarrow> u32 \<Rightarrow> u32 \<Rightarrow> u8 \<Rightarrow> map_info \<Rightarrow> (int \<times> gfn_t option \<times> map_info) outcome"
where
  "trans_coarse_entry_xp k v gva desc domain_type uaccess mi =
     (let t = desc AND L2_TYPE_MASK in
      if t = L2_TYPE_FAULT then
        (case invisible_gfn k of
           Ret g \<Rightarrow> Ret (FSR_TRANS_PAGE, Some g, mi)
         | Bug \<Rightarrow> Bug
         | Invalid_access \<Rightarrow> Invalid_access)
      else if t = L2_TYPE_LARGE then Bug
      else if t = L2_XP_TYPE_EXT_SMALL \<or> t = (L2_XP_TYPE_EXT_SMALL OR 0x1) then
        (let mi' = mi\<lparr>ap := ucast (drop_bit 4 desc AND 0x3),
                      apx := ucast (drop_bit 9 desc AND 0x1),
                      xn := ucast (desc AND 0x1),
                      cache_bits := ucast ((desc AND 0xc) OR (drop_bit 2 desc AND 0x70))\<rparr>;
             ret = (if domain_type = DOMAIN_CLIENT \<and> kvm_decode_ap k v (ap mi') uaccess = KVM_AP_NONE
                    then FSR_PERM_PAGE else 0)
         in Ret (ret, Some (page_gfn (desc AND L2_EXT_SMALL_BASE_MASK) (gva AND VA_EXT_SMALL_INDEX_MASK)), mi'))
      else Ret (- EINVAL, None, mi))"

definition subpage_aps_differ :: "u8 \<Rightarrow> bool" where
  "subpage_aps_differ a \<longleftrightarrow>
     (a AND 0x3) \<noteq> (drop_bit 2 a AND 0x3) \<or>
     (a AND 0x3) \<noteq> (drop_bit 4 a AND 0x3) \<or>
     (a AND 0x3) \<noteq> (drop_bit 6 a AND 0x3)"

definition trans_coarse_entry ::
  "kernel \<Rightarrow> vcpu \<Rightarrow> gva_t \<Rightarrow> u32 \<Rightarrow> u32 \<Rightarrow> u8 \<Rightarrow> map_info \<Rightarrow> (int \<times> gfn_t option \<times> map_info) outcome"
where
  "trans_coarse_entry k v gva desc domain_type uaccess mi =
     (let t = desc AND L2_TYPE_MASK in
      if t = L2_TYPE_FAULT then
        (case invisible_gfn k of
           Ret g \<Rightarrow> Ret (FSR_TRANS_PAGE, Some g, mi)
         | Bug \<Rightarrow> Bug
         | Invalid_access \<Rightarrow> Invalid_access)
      else if t = L2_TYPE_LARGE then Bug
      else if t = L2_TYPE_SMALL then
        (let a = (ucast (drop_bit 4 desc AND 0xff) :: u8) in
         if mmu_xp v then Ret (- EINVAL, None, mi)
         else if subpage_aps_differ a then Ret (- EINVAL, None, mi\<lparr>ap := a\<rparr>)
         else
           (let mi' = mi\<lparr>ap := a, cache_bits := ucast (desc AND 0xc)\<rparr>;
                subpage = (ucast (drop_bit 10 gva AND 0x3) :: u8);
                sap = (ucast (drop_bit (4 + unat subpage * 2) desc AND 0x3) :: u8);
                ret = (if domain_type = DOMAIN_CLIENT \<and> kvm_decode_ap k v sap uaccess = KVM_AP_NONE
                       then FSR_PERM_PAGE else 0)
            in Ret (ret, Some (page_gfn (desc AND L2_SMALL_BASE_MASK) (gva AND VA_SMALL_INDEX_MASK)), mi')))
      else if t = L2_TYPE_EXT_SMALL then
        (let a = (ucast (drop_bit 4 desc AND 0x3) :: u8);
             mi' = mi\<lparr>ap := a OR push_bit 2 a OR push_bit 4 a OR push_bit 6 a,
                      cache_bits := ucast ((desc AND 0xc) OR (drop_bit 2 desc AND 0x70))\<rparr>;
             ret = (if domain_type = DOMAIN_CLIENT \<and> kvm_decode_ap k v a uaccess = KVM_AP_NONE
                    then FSR_PERM_PAGE else 0)
         in Ret (ret, Some (page_gfn (desc AND L2_EXT_SMALL_BASE_MASK) (gva AND VA_EXT_SMALL_INDEX_MASK)), mi'))
      else Bug)"

definition is_supersection :: "u32 \<Rightarrow> bool" where
  "is_supersection l1_entry \<longleftrightarrow> \<not> (l1_entry AND L1_SECTION_TYPE_MASK = L1_SECTION_TYPE_SECTION)"

text \<open>
  \<^verbatim>\<open>l1_domain_access\<close>. The local \<^verbatim>\<open>type\<close> is a \<^verbatim>\<open>u8\<close>: the masked register value is
  truncated to its low 8 bits before it is shifted down. The result is the \<^verbatim>\<open>int\<close> the
  function returns, as the callers store it in their \<^verbatim>\<open>u8 domain_type\<close>.
\<close>

definition l1_domain_access :: "vcpu \<Rightarrow> u32 \<Rightarrow> map_info \<Rightarrow> u32 \<times> map_info" where
  "l1_domain_access v l1_entry mi =
     (let domain = (if is_supersection l1_entry then 0
                    else ucast (drop_bit L1_DOMAIN_SHIFT (l1_entry AND L1_DOMAIN_MASK)) :: u8);
          ty = (ucast (c3_DACR v AND domain_val domain DOMAIN_MANAGER) :: u8)
      in (ucast (drop_bit (2 * unat domain) ty), mi\<lparr>domain_number := domain\<rparr>))"

text \<open>
  \<^verbatim>\<open>gva_to_gfn\<close>. The caller's \<^verbatim>\<open>map_info\<close> is passed in and returned (with a null
  pointer the function uses a local one). The result is the \<^verbatim>\<open>int\<close> returned, the value
  stored through \<^verbatim>\<open>gfn\<close> if any, and the \<^verbatim>\<open>map_info\<close>.
\<close>

definition gva_to_gfn ::
  "kernel \<Rightarrow> vcpu \<Rightarrow> gva_t \<Rightarrow> u8 \<Rightarrow> map_info \<Rightarrow> (int \<times> gfn_t option \<times> map_info) outcome"
where
  "gva_to_gfn k v gva uaccess mi =
     (if \<not> mmu_enabled v then
        Ret (0, Some (ucast (drop_bit PAGE_SHIFT gva)),
             mi\<lparr>domain_number := 0, ap := 0xff, apx := 0, xn := 0, cache_bits := 0x0c\<rparr>)
      else
        (let l1_base = kvm_guest_ttbr k v gva;
             l1_index = drop_bit VA_L1_IDX_SHIFT (gva AND VA_L1_IDX_MASK)
         in case get_guest_pgtable_entry k (l1_base OR ucast l1_index) of
              (err, l1_entry) \<Rightarrow>
               if err < 0 then Ret (err, None, mi) else
               (let t = l1_entry AND L1_TYPE_MASK in
                if t = L1_TYPE_FAULT then
                  (case invisible_gfn k of
                     Ret g \<Rightarrow> Ret (FSR_TRANS_SEC, Some g, mi)
                   | Bug \<Rightarrow> Bug
                   | Invalid_access \<Rightarrow> Invalid_access)
                else if t = L1_TYPE_COARSE then
                  (let (domain_type, mi1) = l1_domain_access v l1_entry mi;
                       ret = (if domain_type = DOMAIN_NOACCESS then FSR_DOMAIN_PAG else 0);
                       l2_base = l1_entry AND L1_COARSE_MASK;
                       l2_index = drop_bit VA_L2_IDX_SHIFT (gva AND VA_L2_IDX_MASK)
                   in case get_guest_pgtable_entry k (ucast (l2_base OR l2_index)) of
                        (err, l2_entry) \<Rightarrow>
                         if err < 0 then Ret (err, None, mi1) else
                         (case (if mmu_xp v
                                then trans_coarse_entry_xp k v gva l2_entry domain_type uaccess mi1
                                else trans_coarse_entry k v gva l2_entry domain_type uaccess mi1) of
                            Bug \<Rightarrow> Bug
                          | Invalid_access \<Rightarrow> Invalid_access
                          | Ret (err, g, mi2) \<Rightarrow>
                              if err < 0 then Ret (err, g, mi2)
                              else if ret = 0 \<and> err > 0 then Ret (err, g, mi2)
                              else Ret (ret, g, mi2)))
                else if t = L1_TYPE_SECTION then
                  (let a = (ucast (drop_bit L1_SECTION_AP_SHIFT (l1_entry AND L1_SECTION_AP_MASK)) :: u8);
                       mi1 = mi\<lparr>ap := a OR push_bit 2 a OR push_bit 4 a OR push_bit 6 a\<rparr>;
                       mi2 = (if mmu_xp v
                              then mi1\<lparr>apx := ucast (drop_bit 14 l1_entry AND 1),
                                       xn := ucast (drop_bit 4 l1_entry AND 1)\<rparr>
                              else mi1);
                       mi3 = mi2\<lparr>cache_bits := ucast (l1_entry AND 0xc)\<rparr>;
                       mi4 = mi3\<lparr>cache_bits := cache_bits mi3 OR ucast (drop_bit 6 l1_entry AND 0x70)\<rparr>;
                       (domain_type, mi5) = l1_domain_access v l1_entry mi4;
                       ret = (if domain_type = DOMAIN_NOACCESS then FSR_DOMAIN_SEC
                              else if domain_type = DOMAIN_CLIENT \<and>
                                      kvm_decode_ap k v a uaccess = KVM_AP_NONE then FSR_PERM_SEC
                              else 0)
                   in if mmu_xp v \<and> is_supersection l1_entry then
                        (if drop_bit L1_SUP_BASE_LOW_SHIFT l1_entry AND 0xf \<noteq> 0 \<or>
                            drop_bit L1_SUP_BASE_HIGH_SHIFT l1_entry AND 0xf \<noteq> 0
                         then Ret (- EINVAL, None, mi5)
                         else Ret (ret, Some (drop_bit PAGE_SHIFT
                                     (ucast ((l1_entry AND L1_SUP_BASE_MASK) OR (gva AND SUP_BASE_INDEX_MASK)))), mi5))
                      else Ret (ret, Some (drop_bit PAGE_SHIFT
                                  (ucast ((l1_entry AND SECTION_BASE_MASK) OR (gva AND SECTION_BASE_INDEX_MASK)))), mi5))
                else Bug)))"

text \<open>The addresses \<^verbatim>\<open>gva_to_gfn\<close> reads the level-1 and the level-2 descriptor from, and its
  choice of the level-2 decoder.\<close>

definition l1_entry_address :: "kernel \<Rightarrow> vcpu \<Rightarrow> gva_t \<Rightarrow> gpa_t" where
  "l1_entry_address k v gva =
     kvm_guest_ttbr k v gva OR ucast (drop_bit VA_L1_IDX_SHIFT (gva AND VA_L1_IDX_MASK))"

definition l2_entry_address :: "u32 \<Rightarrow> gva_t \<Rightarrow> gpa_t" where
  "l2_entry_address l1_entry gva =
     ucast ((l1_entry AND L1_COARSE_MASK) OR drop_bit VA_L2_IDX_SHIFT (gva AND VA_L2_IDX_MASK))"

definition l2_stage ::
  "kernel \<Rightarrow> vcpu \<Rightarrow> gva_t \<Rightarrow> u32 \<Rightarrow> u32 \<Rightarrow> u8 \<Rightarrow> map_info \<Rightarrow> (int \<times> gfn_t option \<times> map_info) outcome"
where
  "l2_stage k v gva l2_entry domain_type uaccess mi =
     (if mmu_xp v then trans_coarse_entry_xp k v gva l2_entry domain_type uaccess mi
      else trans_coarse_entry k v gva l2_entry domain_type uaccess mi)"

subsection \<open>Synthetic fault injection\<close>

text \<open>\<^verbatim>\<open>kvm_generate_mmu_fault\<close>, one record update per assignment of the source.\<close>

definition kvm_generate_mmu_fault :: "kernel \<Rightarrow> vcpu \<Rightarrow> gva_t \<Rightarrow> u32 \<Rightarrow> u8 \<Rightarrow> vcpu" where
  "kvm_generate_mmu_fault k v fault_addr source domain =
     (if guest_exception v = ARM_EXCEPTION_PREF_ABORT then
        (let v1 = v\<lparr>c5_IFSR := 0\<rparr>;
             v2 = v1\<lparr>c5_IFSR := c5_IFSR v1 OR (source AND FSR_TYPE_MASK)\<rparr>;
             v3 = v2\<lparr>c5_IFSR := c5_IFSR v2 OR push_bit 4 (ucast (domain AND 0xf))\<rparr>
         in v3\<lparr>exception_pending := exception_pending v3 OR EXCEPTION_PREFETCH k\<rparr>)
      else
        (let v1 = v\<lparr>c6_FAR := fault_addr\<rparr>;
             v2 = v1\<lparr>c5_DFSR := 0\<rparr>;
             v3 = v2\<lparr>c5_DFSR := c5_DFSR v2 OR (source AND FSR_TYPE_MASK)\<rparr>;
             v4 = v3\<lparr>c5_DFSR := c5_DFSR v3 OR push_bit 4 (ucast (domain AND 0xf))\<rparr>;
             v5 = v4\<lparr>c5_DFSR := source\<rparr>
         in v5\<lparr>exception_pending := exception_pending v5 OR EXCEPTION_DATA k\<rparr>))"

subsection \<open>Shadow page tables: memory\<close>

text \<open>
  A host page frame that holds four 1 KiB level-2 sub-tables: \<open>page_private\<close> is
  \<^verbatim>\<open>page_private(page)\<close>, the count of sub-tables in use (an unsigned long that the code
  only increments from 0 and decrements after checking that it is not 0), \<open>entries\<close> the
  1024 words of the frame.
\<close>

record page =
  page_private :: nat
  entries :: "nat \<Rightarrow> u32"

text \<open>
  The memory the shadow-table functions work on: the virtual CPU, the level-1 root tables
  (4096 words each) by the address \<^verbatim>\<open>pgd\<close> that identifies them, the live frames of level-2
  sub-tables by frame number, the frames the page allocator will hand out next (a freed
  frame goes back to it), and the calls made to \<^verbatim>\<open>kvm_release_pfn_dirty\<close> (\<open>True\<close>) and
  \<^verbatim>\<open>kvm_release_pfn_clean\<close> (\<open>False\<close>), latest first. A pointer into a root or a frame that is
  not live cannot be followed: the function ends in \<open>Invalid_access\<close>.
\<close>

record machine =
  cpu :: vcpu
  pgds :: "nat \<rightharpoonup> (nat \<Rightarrow> u32)"
  pages :: "u32 \<rightharpoonup> page"
  free_pages :: "u32 list"
  released :: "(pfn_t \<times> bool) list"

definition obind :: "'a outcome \<Rightarrow> ('a \<Rightarrow> 'b outcome) \<Rightarrow> 'b outcome" where
  "obind m f = (case m of Ret x \<Rightarrow> f x | Bug \<Rightarrow> Bug | Invalid_access \<Rightarrow> Invalid_access)"

text \<open>A loop whose body may stop the kernel.\<close>

fun ofold :: "('a \<Rightarrow> 's \<Rightarrow> 's outcome) \<Rightarrow> 'a list \<Rightarrow> 's \<Rightarrow> 's outcome" where
  "ofold f [] s = Ret s"
| "ofold f (x # xs) s = obind (f x s) (ofold f xs)"

text \<open>\<^verbatim>\<open>kvm_alloc_l1_shadow\<close>: \<open>new\<close> is what the allocator returns for the 16 KiB root, \<open>None\<close>
  when it fails; the result is the new root or \<^verbatim>\<open>-ENOMEM\<close>.\<close>

definition kvm_alloc_l1_shadow :: "machine \<Rightarrow> nat option \<Rightarrow> (int + nat) \<times> machine" where
  "kvm_alloc_l1_shadow m new =
     (case new of
        None \<Rightarrow> (Inl (- ENOMEM), m)
      | Some pgd \<Rightarrow> (Inr pgd, m\<lparr>pgds := (pgds m)(pgd \<mapsto> (\<lambda>i. 0))\<rparr>))"

subsection \<open>Releasing guest pages\<close>

text \<open>\<^verbatim>\<open>mapping_is_guest_writable\<close>: the \<^verbatim>\<open>switch\<close> is on \<^verbatim>\<open>dacr >> (domain*2)\<close>, without a
  mask; when no case matches the function returns false.\<close>

definition mapping_is_guest_writable :: "kernel \<Rightarrow> vcpu \<Rightarrow> u8 \<Rightarrow> u32 \<Rightarrow> bool outcome" where
  "mapping_is_guest_writable k v domain pte =
     (let dacr = (c3_DACR v AND 0x3fffffff) OR domain_val (KVM_SPECIAL_DOMAIN k) DOMAIN_CLIENT in
      if domain > 15 then Bug
      else
        (let sel = drop_bit (unat domain * 2) dacr in
         if sel = DOMAIN_MANAGER then Ret True
         else if sel = DOMAIN_CLIENT then
           Ret (kvm_decode_ap k v (ucast (drop_bit 4 pte AND 0x3)) 0 = KVM_AP_RDWRITE)
         else if sel = DOMAIN_NOACCESS then Ret False
         else Ret False))"

text \<open>\<^verbatim>\<open>release_l2_shadow_entry\<close>, on the list of released pages.\<close>

definition release_l2_shadow_entry ::
  "kernel \<Rightarrow> vcpu \<Rightarrow> u8 \<Rightarrow> u32 \<Rightarrow> (pfn_t \<times> bool) list \<Rightarrow> (pfn_t \<times> bool) list outcome"
where
  "release_l2_shadow_entry k v domain pte rel =
     (let t = pte AND L2_TYPE_MASK in
      if t = L2_TYPE_FAULT then Ret rel
      else if t = L2_XP_TYPE_EXT_SMALL \<or> t = (L2_XP_TYPE_EXT_SMALL OR 0x1) then
        (let pfn = (ucast (drop_bit PAGE_SHIFT (pte AND L2_SMALL_BASE_MASK)) :: pfn_t) in
         obind (mapping_is_guest_writable k v domain pte) (\<lambda>w. Ret ((pfn, w) # rel)))
      else Bug)"

text \<open>The sub-table a coarse level-1 entry points to: the frame and the slot in it.\<close>

definition l1_frame :: "u32 \<Rightarrow> u32" where
  "l1_frame l1_pte = drop_bit PAGE_SHIFT l1_pte"

definition l1_slot :: "u32 \<Rightarrow> nat" where
  "l1_slot l1_pte = unat (drop_bit 10 (l1_pte AND 0xc00))"

text \<open>\<^verbatim>\<open>free_l2_shadow\<close>: releases the 256 entries of the sub-table, then drops the count of
  the frame and frees the frame when the count reaches zero.\<close>

definition free_l2_shadow :: "kernel \<Rightarrow> u32 \<Rightarrow> machine \<Rightarrow> machine outcome" where
  "free_l2_shadow k l1_pte m =
     (case pages m (l1_frame l1_pte) of
        None \<Rightarrow> Invalid_access
      | Some pg \<Rightarrow>
          obind (ofold (\<lambda>i rel.
                   release_l2_shadow_entry k (cpu m)
                     (ucast (drop_bit L1_DOMAIN_SHIFT (l1_pte AND L1_DOMAIN_MASK)))
                     (entries pg (l1_slot l1_pte * L2_TABLE_ENTRIES + i)) rel)
                 [0..<L2_TABLE_ENTRIES] (released m))
            (\<lambda>rel.
               if page_private pg = 0 then Bug
               else if page_private pg - 1 = 0 then
                 Ret (m\<lparr>released := rel,
                        pages := (pages m)(l1_frame l1_pte := None),
                        free_pages := free_pages m @ [l1_frame l1_pte]\<rparr>)
               else
                 Ret (m\<lparr>released := rel,
                        pages := (pages m)(l1_frame l1_pte \<mapsto> pg\<lparr>page_private := page_private pg - 1\<rparr>)\<rparr>)))"

text \<open>\<^verbatim>\<open>__free_l1_shadow_children\<close>: one step of the loop over the 4096 entries of the root
  \<open>pgd\<close>, and the loop. (After the last step the source reads \<^verbatim>\<open>pgd[4096]\<close> and does not
  use the value.)\<close>

definition free_l1_child :: "kernel \<Rightarrow> nat \<Rightarrow> nat \<Rightarrow> machine \<Rightarrow> machine outcome" where
  "free_l1_child k pgd i m =
     (case pgds m pgd of
        None \<Rightarrow> Invalid_access
      | Some tbl \<Rightarrow>
          if tbl i AND L1_TYPE_MASK = L1_TYPE_FAULT then Ret m
          else if tbl i AND L1_TYPE_MASK \<noteq> L1_TYPE_COARSE then Bug
          else obind (free_l2_shadow k (tbl i) m)
                 (\<lambda>m'. Ret (m'\<lparr>pgds := (pgds m')(pgd \<mapsto> tbl(i := 0))\<rparr>)))"

definition free_l1_shadow_children_loop :: "kernel \<Rightarrow> nat \<Rightarrow> machine \<Rightarrow> machine outcome" where
  "free_l1_shadow_children_loop k pgd m = ofold (free_l1_child k pgd) [0..<L1_TABLE_ENTRIES] m"

text \<open>\<^verbatim>\<open>free_l1_shadow_children\<close> (the root is not a null pointer here): the loop, then
  \<^verbatim>\<open>l2_unused_pt = NULL\<close>.\<close>

definition free_l1_shadow_children :: "kernel \<Rightarrow> nat \<Rightarrow> machine \<Rightarrow> machine outcome" where
  "free_l1_shadow_children k pgd m =
     obind (free_l1_shadow_children_loop k pgd m)
       (\<lambda>m'. Ret (m'\<lparr>cpu := (cpu m')\<lparr>l2_unused_pt := None\<rparr>\<rparr>))"

text \<open>\<^verbatim>\<open>kvm_free_l1_shadow\<close>: frees the children, then the root itself.\<close>

definition kvm_free_l1_shadow :: "kernel \<Rightarrow> nat \<Rightarrow> machine \<Rightarrow> machine outcome" where
  "kvm_free_l1_shadow k pgd m =
     obind (free_l1_shadow_children k pgd m)
       (\<lambda>m'. Ret (m'\<lparr>pgds := (pgds m')(pgd := None)\<rparr>))"

subsection \<open>Installing and removing mappings\<close>

text \<open>\<^verbatim>\<open>alloc_l2_shadow\<close>: the sub-table handed out (frame and slot) or \<^verbatim>\<open>-ENOMEM\<close>.\<close>

definition alloc_l2_shadow :: "machine \<Rightarrow> ((int + u32 \<times> nat) \<times> machine) outcome" where
  "alloc_l2_shadow m =
     (let start =
        (case l2_unused_pt (cpu m) of
           Some (f, s) \<Rightarrow> (if pages m f = None then Invalid_access else Ret (Some (f, s, m)))
         | None \<Rightarrow>
            (case free_pages m of
               [] \<Rightarrow> Ret None
             | f # fs \<Rightarrow>
                 Ret (Some (f, 0, m\<lparr>free_pages := fs,
                                    pages := (pages m)(f \<mapsto> \<lparr>page_private = 0, entries = (\<lambda>i. 0)\<rparr>)\<rparr>))))
      in obind start (\<lambda>r.
           case r of
             None \<Rightarrow> Ret (Inl (- ENOMEM), m)
           | Some (f, s, m1) \<Rightarrow>
               (case pages m1 f of
                  None \<Rightarrow> Invalid_access
                | Some pg \<Rightarrow>
                    Ret (Inr (f, s),
                         m1\<lparr>cpu := (cpu m1)\<lparr>l2_unused_pt := (if Suc s = 4 then None else Some (f, Suc s))\<rparr>,
                            pages := (pages m1)(f \<mapsto> pg\<lparr>page_private := Suc (page_private pg)\<rparr>)\<rparr>))))"

text \<open>\<^verbatim>\<open>dom_to_ap\<close>: the access permissions and the \<^verbatim>\<open>apx\<close> it leaves.\<close>

definition dom_to_ap :: "kernel \<Rightarrow> vcpu \<Rightarrow> u8 \<Rightarrow> u8 \<Rightarrow> u8 \<Rightarrow> u8 \<times> u8" where
  "dom_to_ap k v domain a x =
     (if VCPU_DOMAIN_VAL k v domain = DOMAIN_NOACCESS then (0, 0)
      else if VCPU_DOMAIN_VAL k v domain = DOMAIN_MANAGER then (0xff, 0)
      else (a, x))"

text \<open>\<^verbatim>\<open>get_l2_base\<close>: \<^verbatim>\<open>-EFAULT\<close> or the sub-table (frame and slot).\<close>

definition get_l2_base :: "kernel \<Rightarrow> u32 \<Rightarrow> int + u32 \<times> nat" where
  "get_l2_base k l1_entry =
     (if \<not> pfn_valid k (drop_bit PAGE_SHIFT l1_entry) then Inl (- EFAULT)
      else Inr (drop_bit PAGE_SHIFT l1_entry, l1_slot l1_entry))"

text \<open>The level-2 descriptor \<^verbatim>\<open>__map_gva_to_pfn\<close> builds (VMSAv6 and higher).\<close>

definition l2_descriptor :: "pfn_t \<Rightarrow> u8 \<Rightarrow> u8 \<Rightarrow> u8 \<Rightarrow> u8 \<Rightarrow> u32" where
  "l2_descriptor pfn a x xnv nG =
     (let d1 = ucast (push_bit PAGE_SHIFT pfn OR ucast L2_XP_TYPE_EXT_SMALL :: u64);
          d2 = d1 OR ucast (xnv AND 0x1);
          d3 = d2 OR 0xc;
          d4 = d3 AND NOT 0x00000ff0;
          d5 = d4 OR push_bit 4 (ucast (a AND 0x3));
          d6 = d5 OR push_bit 9 (ucast (x AND 0x1))
      in d6 OR push_bit 11 (ucast nG))"

text \<open>The level-1 descriptor written for a freshly allocated sub-table.\<close>

definition l1_coarse_descriptor :: "u32 \<Rightarrow> nat \<Rightarrow> u8 \<Rightarrow> u32" where
  "l1_coarse_descriptor f s domain =
     (let d1 = push_bit PAGE_SHIFT f;
          d2 = d1 OR (push_bit 10 (of_nat s) AND NOT PAGE_MASK);
          d3 = (d2 AND L1_COARSE_MASK) OR L1_TYPE_COARSE
      in d3 OR push_bit L1_DOMAIN_SHIFT (ucast (domain AND 0xf)))"

text \<open>Writing one level-2 entry through a sub-table pointer.\<close>

definition write_l2 :: "u32 \<times> nat \<Rightarrow> nat \<Rightarrow> u32 \<Rightarrow> machine \<Rightarrow> machine outcome" where
  "write_l2 l2_base idx val m =
     (case pages m (fst l2_base) of
        None \<Rightarrow> Invalid_access
      | Some pg \<Rightarrow>
          Ret (m\<lparr>pages := (pages m)(fst l2_base \<mapsto>
                 pg\<lparr>entries := (entries pg)(snd l2_base * L2_TABLE_ENTRIES + idx := val)\<rparr>)\<rparr>))"

definition l2_index :: "gva_t \<Rightarrow> nat" where
  "l2_index gva = unat (drop_bit 12 gva AND 0xff)"

text \<open>The first part of \<^verbatim>\<open>__map_gva_to_pfn\<close>: the not-global bit, and the domain check,
  which gives the access permissions, the \<^verbatim>\<open>apx\<close> and the domain that are written.\<close>

definition install_nG :: "kernel \<Rightarrow> gva_t \<Rightarrow> u8" where
  "install_nG k gva =
     (if gva AND PAGE_MASK = SHARED_PAGE_BASE k \<or> gva > TASK_SIZE k then 0 else 1)"

definition install_domain :: "kernel \<Rightarrow> vcpu \<Rightarrow> gva_t \<Rightarrow> u8 \<Rightarrow> u8 \<Rightarrow> u8 \<Rightarrow> u8 \<times> u8 \<times> u8" where
  "install_domain k v gva domain a x =
     (if domain = KVM_SPECIAL_DOMAIN k then (a, x, domain)
      else if drop_bit 20 gva = drop_bit 20 (SHARED_PAGE_BASE k) then
        (fst (dom_to_ap k v domain a x), snd (dom_to_ap k v domain a x), KVM_SPECIAL_DOMAIN k)
      else if drop_bit 20 gva = drop_bit 20 (VCPU_HOST_EXCP_BASE k v) then
        (fst (dom_to_ap k v domain a x), snd (dom_to_ap k v domain a x), KVM_SPECIAL_DOMAIN k)
      else (a, x, domain))"

text \<open>\<^verbatim>\<open>__map_gva_to_pfn\<close>. The parameter named \<^verbatim>\<open>xn\<close> is \<open>xnv\<close>; the two leading
  underscores of the name are written \<open>uu_\<close>.\<close>

definition uu_map_gva_to_pfn ::
  "kernel \<Rightarrow> nat \<Rightarrow> gva_t \<Rightarrow> pfn_t \<Rightarrow> u8 \<Rightarrow> u8 \<Rightarrow> u8 \<Rightarrow> u8 \<Rightarrow> machine \<Rightarrow> (int \<times> machine) outcome"
where
  "uu_map_gva_to_pfn k pgd gva pfn domain a x xnv m =
     (let l1_index = unat (drop_bit 20 gva);
          nG = install_nG k gva;
          (a1, x1, domain1) = install_domain k (cpu m) gva domain a x
      in case pgds m pgd of
           None \<Rightarrow> Invalid_access
         | Some tbl \<Rightarrow>
            (let l1_pte = tbl l1_index;
                 val = l2_descriptor pfn a1 x1 xnv nG in
             if l1_pte AND L1_TYPE_MASK = L1_TYPE_FAULT then
               obind (alloc_l2_shadow m) (\<lambda>(r, m1).
                 case r of
                   Inl err \<Rightarrow> Ret (err, m1)
                 | Inr (f, s) \<Rightarrow>
                     (let m2 = m1\<lparr>pgds := (pgds m1)(pgd \<mapsto>
                                  tbl(l1_index := l1_coarse_descriptor f s domain1))\<rparr>
                      in obind (write_l2 (f, s) (l2_index gva) val m2) (\<lambda>m3. Ret (0, m3))))
             else if l1_pte AND L1_TYPE_MASK = L1_TYPE_COARSE then
               (let l1_new = (l1_pte AND NOT L1_DOMAIN_MASK)
                               OR push_bit L1_DOMAIN_SHIFT (ucast (domain1 AND 0xf));
                    m1 = m\<lparr>pgds := (pgds m)(pgd \<mapsto> tbl(l1_index := l1_new))\<rparr>
                in case get_l2_base k l1_new of
                     Inl err \<Rightarrow> Ret (err, m1)
                   | Inr l2_base \<Rightarrow>
                       obind (write_l2 l2_base (l2_index gva) val m1) (\<lambda>m2. Ret (0, m2)))
             else Ret (- EFAULT, m)))"

text \<open>\<^verbatim>\<open>map_gva_to_pfn\<close>: the check of the access permissions, the replication of the two
  bits of \<^verbatim>\<open>calc_aps\<close> over the four subpages (\<open>install_ap\<close>), then the call of
  \<^verbatim>\<open>__map_gva_to_pfn\<close>.\<close>

definition install_ap :: "kernel \<Rightarrow> kvm_ap \<Rightarrow> kvm_ap \<Rightarrow> u8" where
  "install_ap k priv_ap user_ap =
     foldl (\<lambda>acc i. acc OR push_bit (i * 2) (fst (calc_aps k priv_ap user_ap))) 0 [0..<4]"

definition map_gva_to_pfn ::
  "kernel \<Rightarrow> nat \<Rightarrow> gva_t \<Rightarrow> pfn_t \<Rightarrow> u8 \<Rightarrow> kvm_ap \<Rightarrow> kvm_ap \<Rightarrow> u8 \<Rightarrow> machine \<Rightarrow> (int \<times> machine) outcome"
where
  "map_gva_to_pfn k pgd gva pfn domain priv_ap user_ap exec m =
     (if priv_ap = KVM_AP_NONE \<and> user_ap \<noteq> KVM_AP_NONE then Ret (- EINVAL, m)
      else if mmu_xp (cpu m) \<and> priv_ap = KVM_AP_RDONLY \<and> user_ap = KVM_AP_RDWRITE then Ret (- EINVAL, m)
      else if \<not> mmu_xp (cpu m) \<and> priv_ap = KVM_AP_RDONLY then Ret (- EINVAL, m)
      else uu_map_gva_to_pfn k pgd gva pfn domain (install_ap k priv_ap user_ap)
             (snd (calc_aps k priv_ap user_ap)) exec m)"

text \<open>The test for the two special 1 MiB regions.\<close>

definition in_special_region :: "kernel \<Rightarrow> vcpu \<Rightarrow> gva_t \<Rightarrow> bool" where
  "in_special_region k v gva \<longleftrightarrow>
     drop_bit 20 gva = drop_bit 20 (SHARED_PAGE_BASE k) \<or>
     drop_bit 20 gva = drop_bit 20 (VCPU_HOST_EXCP_BASE k v)"

text \<open>The domain field of a level-1 descriptor.\<close>

definition l1_domain :: "u32 \<Rightarrow> u32" where
  "l1_domain l1_pte = drop_bit L1_DOMAIN_SHIFT (l1_pte AND L1_DOMAIN_MASK)"

text \<open>\<^verbatim>\<open>unmap_gva_section\<close>.\<close>

definition unmap_gva_section :: "kernel \<Rightarrow> nat \<Rightarrow> gva_t \<Rightarrow> machine \<Rightarrow> (int \<times> machine) outcome" where
  "unmap_gva_section k pgd gva m =
     (case pgds m pgd of
        None \<Rightarrow> Invalid_access
      | Some tbl \<Rightarrow>
         (let i = unat (drop_bit 20 gva) in
          if tbl i AND L1_TYPE_MASK = L1_TYPE_FAULT then Ret (0, m)
          else if tbl i AND L1_TYPE_MASK = L1_TYPE_COARSE then
            obind (free_l2_shadow k (tbl i) m)
              (\<lambda>m'. Ret (0, m'\<lparr>pgds := (pgds m')(pgd \<mapsto> tbl(i := 0))\<rparr>))
          else Ret (- EFAULT, m)))"

text \<open>\<^verbatim>\<open>unmap_gva\<close>.\<close>

definition unmap_gva :: "kernel \<Rightarrow> nat \<Rightarrow> gva_t \<Rightarrow> machine \<Rightarrow> (int \<times> machine) outcome" where
  "unmap_gva k pgd gva m =
     (case pgds m pgd of
        None \<Rightarrow> Invalid_access
      | Some tbl \<Rightarrow>
         (let i = unat (drop_bit 20 gva) in
          if tbl i AND L1_TYPE_MASK = L1_TYPE_FAULT then Ret (0, m)
          else if tbl i AND L1_TYPE_MASK = L1_TYPE_COARSE then
            (case get_l2_base k (tbl i) of
               Inl err \<Rightarrow> Ret (err, m)
             | Inr l2_base \<Rightarrow> obind (write_l2 l2_base (l2_index gva) 0 m) (\<lambda>m'. Ret (0, m')))
          else Ret (- EFAULT, m)))"

text \<open>\<^verbatim>\<open>kvm_switch_host_vectors\<close>.\<close>

definition kvm_switch_host_vectors :: "kernel \<Rightarrow> int \<Rightarrow> machine \<Rightarrow> (int \<times> machine) outcome" where
  "kvm_switch_host_vectors k high m =
     (if high = host_vectors_high (cpu m) then Ret (0, m)
      else
        obind (if high \<noteq> 0
               then unmap_gva_section k (shadow_pgtable (cpu m)) EXCEPTION_VECTOR_LOW m
               else unmap_gva k (shadow_pgtable (cpu m)) EXCEPTION_VECTOR_HIGH m)
          (\<lambda>(ret, m1).
             if ret \<noteq> 0 then Ret (ret, m1)
             else
               (let m2 = m1\<lparr>cpu := (cpu m1)\<lparr>host_vectors_high := (if high \<noteq> 0 then 1 else 0)\<rparr>\<rparr>;
                    exception_base = (if high \<noteq> 0 then EXCEPTION_VECTOR_HIGH else EXCEPTION_VECTOR_LOW)
                in map_gva_to_pfn k (shadow_pgtable (cpu m2)) exception_base (guest_vectors (cpu m2))
                     (KVM_SPECIAL_DOMAIN k) KVM_AP_RDWRITE KVM_AP_NONE (KVM_MEM_EXEC k) m2)))"

subsection \<open>Sequences of calls and the count of sub-tables in use\<close>

text \<open>The calls of the shadow-table interface, and a run of them one after the other: a
  call that returns an error code is followed by the next call, a call that does not
  return ends the run.\<close>

datatype shadow_op =
    Install nat gva_t pfn_t u8 kvm_ap kvm_ap u8
  | Unmap_page nat gva_t
  | Unmap_section nat gva_t
  | Free_root nat

fun apply_op :: "kernel \<Rightarrow> shadow_op \<Rightarrow> machine \<Rightarrow> (int \<times> machine) outcome" where
  "apply_op k (Install pgd gva pfn domain priv_ap user_ap exec) m =
     map_gva_to_pfn k pgd gva pfn domain priv_ap user_ap exec m"
| "apply_op k (Unmap_page pgd gva) m = unmap_gva k pgd gva m"
| "apply_op k (Unmap_section pgd gva) m = unmap_gva_section k pgd gva m"
| "apply_op k (Free_root pgd) m = obind (kvm_free_l1_shadow k pgd m) (\<lambda>m'. Ret (0, m'))"

definition run_ops :: "kernel \<Rightarrow> shadow_op list \<Rightarrow> machine \<Rightarrow> machine outcome" where
  "run_ops k ops m = ofold (\<lambda>op m. obind (apply_op k op m) (\<lambda>(ret, m'). Ret m')) ops m"

text \<open>The memory before any shadow table exists: no root, no sub-table frame, and the
  frames the page allocator will hand out.\<close>

definition empty_machine :: "vcpu \<Rightarrow> u32 list \<Rightarrow> machine" where
  "empty_machine v fl =
     \<lparr>cpu = v\<lparr>l2_unused_pt := None\<rparr>, pgds = Map.empty, pages = Map.empty,
      free_pages = fl, released = []\<rparr>"

text \<open>The memory in which the roots \<open>roots\<close> have just been allocated by
  \<^verbatim>\<open>kvm_alloc_l1_shadow\<close> and nothing else has happened.\<close>

definition fresh_machine :: "vcpu \<Rightarrow> u32 list \<Rightarrow> nat list \<Rightarrow> machine" where
  "fresh_machine v fl roots =
     foldr (\<lambda>pgd m. snd (kvm_alloc_l1_shadow m (Some pgd))) roots (empty_machine v fl)"

text \<open>The page allocator hands out no frame twice, and the physical address of a frame
  fits in 32 bits.\<close>

definition frame_ok :: "u32 \<Rightarrow> bool" where
  "frame_ok f \<longleftrightarrow> take_bit 20 f = f"

definition allocator_ok :: "u32 list \<Rightarrow> bool" where
  "allocator_ok fl \<longleftrightarrow> distinct fl \<and> list_all frame_ok fl"

text \<open>The number of the four 1 KiB slots of a frame that hold at least one entry that is
  not Fault.\<close>

definition slot_populated :: "page \<Rightarrow> nat \<Rightarrow> bool" where
  "slot_populated pg s \<longleftrightarrow>
     list_ex (\<lambda>i. entries pg (s * L2_TABLE_ENTRIES + i) AND L2_TYPE_MASK \<noteq> L2_TYPE_FAULT)
       [0..<L2_TABLE_ENTRIES]"

definition populated_slots :: "page \<Rightarrow> nat" where
  "populated_slots pg = length (filter (slot_populated pg) [0..<4])"

text \<open>The property of the counts in terms of the contents of the sub-tables: the count of
  every live frame is the number of its populated slots.\<close>

definition counts_populated :: "machine \<Rightarrow> bool" where
  "counts_populated m \<longleftrightarrow>
     (\<forall>f pg. pages m f = Some pg \<longrightarrow> page_private pg = populated_slots pg)"

text \<open>The sub-table that entry \<open>i\<close> of the root \<open>pgd\<close> points to, when the root is live and
  the entry is Coarse; and the slots of a frame that some level-1 entry points to.\<close>

definition l1_ref :: "machine \<Rightarrow> nat \<times> nat \<Rightarrow> (u32 \<times> nat) option" where
  "l1_ref m = (\<lambda>(pgd, i).
     case pgds m pgd of
       None \<Rightarrow> None
     | Some tbl \<Rightarrow>
         if i < L1_TABLE_ENTRIES \<and> tbl i AND L1_TYPE_MASK = L1_TYPE_COARSE
         then Some (l1_frame (tbl i), l1_slot (tbl i)) else None)"

definition slots_of :: "(nat \<times> nat \<Rightarrow> (u32 \<times> nat) option) \<Rightarrow> u32 \<Rightarrow> nat set" where
  "slots_of R f = {s. \<exists>key. R key = Some (f, s)}"

definition referenced_slots :: "machine \<Rightarrow> u32 \<Rightarrow> nat set" where
  "referenced_slots m f = slots_of (l1_ref m) f"

text \<open>The property of the counts: every live frame of sub-tables has a count equal to the
  number of its slots that a Coarse level-1 entry points to.\<close>

definition counts_match :: "machine \<Rightarrow> bool" where
  "counts_match m \<longleftrightarrow>
     (\<forall>f pg. pages m f = Some pg \<longrightarrow> page_private pg = card (referenced_slots m f))"

text \<open>What holds, besides, between the calls: in terms of the references \<open>R\<close> of the
  level-1 entries, the counts \<open>cnt\<close> of the live frames, the pointer \<open>U\<close> to the next unused
  sub-table and the frames \<open>F\<close> of the allocator. A reference points to a live frame, no
  two entries point to the same sub-table, the counts are the numbers of referenced slots,
  the slots from the unused one on are not referenced while its frame is live, and the
  frames of the allocator are distinct and not live.\<close>

definition abs_inv ::
  "(nat \<times> nat \<Rightarrow> (u32 \<times> nat) option) \<Rightarrow> (u32 \<Rightarrow> nat option) \<Rightarrow> (u32 \<times> nat) option \<Rightarrow> u32 list \<Rightarrow> bool"
where
  "abs_inv R cnt U F \<longleftrightarrow>
     (\<forall>key f s. R key = Some (f, s) \<longrightarrow> cnt f \<noteq> None \<and> s < 4) \<and>
     (\<forall>key key' b. R key = Some b \<and> R key' = Some b \<longrightarrow> key = key') \<and>
     (\<forall>f c. cnt f = Some c \<longrightarrow> c = card (slots_of R f)) \<and>
     (\<forall>f s. U = Some (f, s) \<longrightarrow> s < 4 \<and> (cnt f \<noteq> None \<longrightarrow> (\<forall>s'\<ge>s. s' \<notin> slots_of R f))) \<and>
     distinct F \<and> (\<forall>f\<in>set F. frame_ok f \<and> cnt f = None) \<and>
     (\<forall>f. cnt f \<noteq> None \<longrightarrow> frame_ok f)"

definition shadow_inv :: "machine \<Rightarrow> bool" where
  "shadow_inv m \<longleftrightarrow>
     abs_inv (l1_ref m) (\<lambda>f. map_option page_private (pages m f)) (l2_unused_pt (cpu m))
       (free_pages m)"

subsection \<open>A concrete configuration\<close>

text \<open>
  Stand-ins for the parameters, used to run the functions on concrete inputs: the ARMv6
  reading of the two access-permission bits (0 no access, 1 privileged read-write, 2
  user read-only, 3 read-write), domain 15 as the special domain, and a guest memory in
  which the level-1 table is at 0x4000.
\<close>

definition example_decode_ap :: "vcpu \<Rightarrow> u8 \<Rightarrow> u8 \<Rightarrow> kvm_ap" where
  "example_decode_ap v a uaccess =
     (if a AND 3 = 0 then KVM_AP_NONE
      else if a AND 3 = 1 then (if uaccess \<noteq> 0 then KVM_AP_NONE else KVM_AP_RDWRITE)
      else if a AND 3 = 2 then (if uaccess \<noteq> 0 then KVM_AP_RDONLY else KVM_AP_RDWRITE)
      else KVM_AP_RDWRITE)"

fun example_calc_aps :: "kvm_ap \<Rightarrow> kvm_ap \<Rightarrow> u8 \<times> u8" where
  "example_calc_aps KVM_AP_NONE _ = (0, 0)"
| "example_calc_aps KVM_AP_RDWRITE KVM_AP_NONE = (1, 0)"
| "example_calc_aps KVM_AP_RDWRITE KVM_AP_RDONLY = (2, 0)"
| "example_calc_aps KVM_AP_RDWRITE KVM_AP_RDWRITE = (3, 0)"
| "example_calc_aps KVM_AP_RDONLY KVM_AP_NONE = (1, 1)"
| "example_calc_aps KVM_AP_RDONLY _ = (2, 1)"

definition example_guest_memory :: "gpa_t \<Rightarrow> int \<times> u32" where
  "example_guest_memory a =
     (if a = 0x4000 then (0, 0x00008061)
      else if a = 0x4004 then (0, 0x00100CA2)
      else if a = 0x4008 then (0, 0x00008021)
      else if a = 0x8000 then (0, 0x00000000)
      else if a = 0x8004 then (0, 0x00009012)
      else if a = 0x8008 then (0, 0x00009001)
      else if a = 0x400c then (0, 0x0000a001)
      else if a \<ge> 0x10000 then (- EFAULT, 0)
      else (0, 0))"

definition example_kernel :: kernel where
  "example_kernel =
     \<lparr>kvm_read_guest = example_guest_memory,
      kvm_guest_ttbr = (\<lambda>v gva. 0x4000),
      kvm_is_visible_gfn = (\<lambda>gfn. gfn < 0x8000),
      memslots_base_gfn = [0],
      kvm_decode_ap = example_decode_ap,
      calc_aps = example_calc_aps,
      VCPU_DOMAIN_VAL = (\<lambda>v d. drop_bit (2 * unat d) (c3_DACR v) AND 3),
      VCPU_HOST_EXCP_BASE = (\<lambda>v. if host_vectors_high v \<noteq> 0 then EXCEPTION_VECTOR_HIGH
                                  else EXCEPTION_VECTOR_LOW),
      pfn_valid = (\<lambda>pfn. True),
      KVM_SPECIAL_DOMAIN = 15,
      SHARED_PAGE_BASE = 0xffff1000,
      TASK_SIZE = 0xbf000000,
      KVM_MEM_EXEC = 0,
      EXCEPTION_PREFETCH = 1,
      EXCEPTION_DATA = 2\<rparr>"

definition example_vcpu :: vcpu where
  "example_vcpu =
     \<lparr>c3_DACR = 0, c5_IFSR = 0, c5_DFSR = 0, c6_FAR = 0,
      mmu_enabled = True, mmu_xp = True,
      guest_exception = ARM_EXCEPTION_DATA_ABORT, exception_pending = 0,
      host_vectors_high = 0, l2_unused_pt = None, shadow_pgtable = 0, guest_vectors = 0x300\<rparr>"

definition example_map_info :: map_info where
  "example_map_info = \<lparr>domain_number = 0, ap = 0, apx = 0, xn = 0, cache_bits = 0\<rparr>"

text \<open>One root, at address 0, allocated by \<^verbatim>\<open>kvm_alloc_l1_shadow\<close>; the same with the
  register marking domain 3 Manager; and a root whose first entry is a section
  descriptor.\<close>

definition example_machine :: machine where
  "example_machine = snd (kvm_alloc_l1_shadow (empty_machine example_vcpu [0x500, 0x501]) (Some 0))"

definition example_manager_machine :: machine where
  "example_manager_machine = example_machine\<lparr>cpu := example_vcpu\<lparr>c3_DACR := 0xC0\<rparr>\<rparr>"

definition example_section_machine :: machine where
  "example_section_machine = example_machine\<lparr>pgds := [0 \<mapsto> (\<lambda>i. 0)(0 := 0x00100C02)]\<rparr>"

text \<open>The memory after one page has been installed at 0x00100000, in domain 3.\<close>

definition example_mapped_machine :: machine where
  "example_mapped_machine =
     (case map_gva_to_pfn example_kernel 0 0x00100000 0x300 3 KVM_AP_RDWRITE KVM_AP_RDWRITE 0
             example_manager_machine of
        Ret (ret, m) \<Rightarrow> m
      | Bug \<Rightarrow> example_manager_machine
      | Invalid_access \<Rightarrow> example_manager_machine)"

text \<open>The register marking domain 3 Manager, domain 1 Client and domain 0 No-Access, and
  the memory after one page has been installed at 0x3000, in the section of the low
  exception vectors, for a given domain and given access permissions.\<close>

definition example_domains_machine :: machine where
  "example_domains_machine = example_machine\<lparr>cpu := example_vcpu\<lparr>c3_DACR := 0xC4\<rparr>\<rparr>"

definition example_vector_install :: "u8 \<Rightarrow> kvm_ap \<Rightarrow> kvm_ap \<Rightarrow> machine" where
  "example_vector_install domain priv_ap user_ap =
     (case map_gva_to_pfn example_kernel 0 0x3000 0x300 domain priv_ap user_ap 0
             example_domains_machine of
        Ret (ret, m) \<Rightarrow> m
      | Bug \<Rightarrow> example_domains_machine
      | Invalid_access \<Rightarrow> example_domains_machine)"

text \<open>Two runs from one fresh root: an install followed by \<^verbatim>\<open>unmap_gva\<close> of the same page;
  and installs in two sections, an unmap of a page, an unmap of a section, and the
  release of the root.\<close>

definition example_unmap_run :: "machine outcome" where
  "example_unmap_run =
     run_ops example_kernel
       [Install 0 0x00100000 0x300 3 KVM_AP_RDWRITE KVM_AP_RDWRITE 0,
        Unmap_page 0 0x00100000]
       (fresh_machine example_vcpu [0x500, 0x501] [0])"

definition example_mixed_ops :: "shadow_op list" where
  "example_mixed_ops =
     [Install 0 0x00100000 0x300 3 KVM_AP_RDWRITE KVM_AP_RDWRITE 0,
      Install 0 0x00200000 0x301 3 KVM_AP_RDWRITE KVM_AP_NONE 0,
      Unmap_page 0 0x00100000,
      Unmap_section 0 0x00200000,
      Install 0 0x00300000 0x302 3 KVM_AP_RDWRITE KVM_AP_NONE 0]"

definition example_mixed_run :: "machine outcome" where
  "example_mixed_run =
     run_ops example_kernel example_mixed_ops (fresh_machine example_vcpu [0x500, 0x501] [0])"

section \<open>Properties\<close>

subsection \<open>Translation with the guest MMU disabled\<close>

text \<open>
  C9: if the guest MMU is disabled, \<^verbatim>\<open>gva_to_gfn\<close> returns 0 with the frame number
  \<^verbatim>\<open>gva >> 12\<close> and the maximal permissions (access permissions 0xff, apx 0,
  execute-never 0), and it walks no table: the result is the same whatever reading guest
  memory would give.
\<close>

theorem gva_to_gfn_mmu_disabled:
  assumes "\<not> mmu_enabled v"
  shows "gva_to_gfn k v gva uaccess mi =
           Ret (0, Some (ucast (drop_bit 12 gva)),
                mi\<lparr>domain_number := 0, ap := 0xff, apx := 0, xn := 0, cache_bits := 0x0c\<rparr>)
         \<and> gva_to_gfn (k\<lparr>kvm_read_guest := r\<rparr>) v gva uaccess mi = gva_to_gfn k v gva uaccess mi"
  using assms by (simp add: gva_to_gfn_def PAGE_SHIFT_def)

theorem gva_to_gfn_mmu_disabled_witness:
  "\<not> mmu_enabled (example_vcpu\<lparr>mmu_enabled := False\<rparr>) \<and>
   gva_to_gfn example_kernel (example_vcpu\<lparr>mmu_enabled := False\<rparr>) 0x12345678 0 example_map_info =
     Ret (0, Some 0x12345, \<lparr>domain_number = 0, ap = 0xff, apx = 0, xn = 0, cache_bits = 0x0c\<rparr>)"
  using gva_to_gfn_mmu_disabled [of "example_vcpu\<lparr>mmu_enabled := False\<rparr>" example_kernel
      "0x12345678" 0 example_map_info]
  by (simp add: example_map_info_def)

subsection \<open>Synthetic fault injection\<close>

text \<open>What \<^verbatim>\<open>kvm_generate_mmu_fault\<close> stores, for a prefetch abort and for any other
  pending exception.\<close>

lemma kvm_generate_mmu_fault_prefetch:
  "guest_exception v = ARM_EXCEPTION_PREF_ABORT \<Longrightarrow>
   kvm_generate_mmu_fault k v fault_addr source domain =
     v\<lparr>c5_IFSR := (source AND FSR_TYPE_MASK) OR push_bit 4 (ucast (domain AND 0xf)),
       exception_pending := exception_pending v OR EXCEPTION_PREFETCH k\<rparr>"
  by (simp add: kvm_generate_mmu_fault_def Let_def)

lemma kvm_generate_mmu_fault_data:
  "guest_exception v \<noteq> ARM_EXCEPTION_PREF_ABORT \<Longrightarrow>
   kvm_generate_mmu_fault k v fault_addr source domain =
     v\<lparr>c6_FAR := fault_addr, c5_DFSR := source,
       exception_pending := exception_pending v OR EXCEPTION_DATA k\<rparr>"
  by (simp add: kvm_generate_mmu_fault_def Let_def)

text \<open>
  C4: the fault-status register receives the fault code in its low 4 bits and the domain
  in bits [7:4]. For a data abort the code does not do this: the last assignment stores
  the bare source code in the data fault-status register. With source code
  \<^verbatim>\<open>FSR_PERM_PAGE\<close> (0xf) and domain 3 the register holds 0x0f, and its bits [7:4] are
  not the domain.
\<close>

theorem kvm_generate_mmu_fault_data_abort_drops_domain:
  "c5_DFSR (kvm_generate_mmu_fault example_kernel example_vcpu 0x1000 0xf 3) = 0xf \<and>
   drop_bit 4 (c5_DFSR (kvm_generate_mmu_fault example_kernel example_vcpu 0x1000 0xf 3)) AND 0xf \<noteq> 3"
  by (simp add: kvm_generate_mmu_fault_def example_vcpu_def Let_def
        ARM_EXCEPTION_PREF_ABORT_def ARM_EXCEPTION_DATA_ABORT_def)

subsection \<open>Permission check of \<^verbatim>\<open>map_gva_to_pfn\<close>\<close>

text \<open>
  C7: \<^verbatim>\<open>map_gva_to_pfn\<close> returns \<^verbatim>\<open>-EINVAL\<close> and leaves the memory as it was, whenever
  privileged access is none and user access is not, whenever in extended-paging mode
  privileged access is read-only and user access read-write, and whenever in legacy mode
  privileged access is read-only.
\<close>

theorem map_gva_to_pfn_rejects:
  assumes "(priv_ap = KVM_AP_NONE \<and> user_ap \<noteq> KVM_AP_NONE) \<or>
           (mmu_xp (cpu m) \<and> priv_ap = KVM_AP_RDONLY \<and> user_ap = KVM_AP_RDWRITE) \<or>
           (\<not> mmu_xp (cpu m) \<and> priv_ap = KVM_AP_RDONLY)"
  shows "map_gva_to_pfn k pgd gva pfn domain priv_ap user_ap exec m = Ret (- EINVAL, m)"
  using assms by (auto simp add: map_gva_to_pfn_def)

theorem map_gva_to_pfn_rejects_witness:
  "map_gva_to_pfn example_kernel 0 0x1000 0x300 3 KVM_AP_NONE KVM_AP_RDONLY 0
      (empty_machine example_vcpu [0x500]) = Ret (- EINVAL, empty_machine example_vcpu [0x500]) \<and>
   map_gva_to_pfn example_kernel 0 0x1000 0x300 3 KVM_AP_RDONLY KVM_AP_RDWRITE 0
      (empty_machine example_vcpu [0x500]) = Ret (- EINVAL, empty_machine example_vcpu [0x500]) \<and>
   map_gva_to_pfn example_kernel 0 0x1000 0x300 3 KVM_AP_RDONLY KVM_AP_NONE 0
      (empty_machine (example_vcpu\<lparr>mmu_xp := False\<rparr>) [0x500]) =
     Ret (- EINVAL, empty_machine (example_vcpu\<lparr>mmu_xp := False\<rparr>) [0x500])"
  using map_gva_to_pfn_rejects [of KVM_AP_NONE KVM_AP_RDONLY "empty_machine example_vcpu [0x500]"
          example_kernel 0 "0x1000" "0x300" 3 0]
        map_gva_to_pfn_rejects [of KVM_AP_RDONLY KVM_AP_RDWRITE "empty_machine example_vcpu [0x500]"
          example_kernel 0 "0x1000" "0x300" 3 0]
        map_gva_to_pfn_rejects [of KVM_AP_RDONLY KVM_AP_NONE
          "empty_machine (example_vcpu\<lparr>mmu_xp := False\<rparr>) [0x500]" example_kernel 0 "0x1000" "0x300" 3 0]
  by (simp add: empty_machine_def example_vcpu_def)

subsection \<open>Domain resolution\<close>

text \<open>
  C6: a domain that the domain-access-control register marks Manager is allowed access.
  The code does not do this for the domains 4 to 15: \<^verbatim>\<open>l1_domain_access\<close> keeps the masked
  register value in a \<^verbatim>\<open>u8\<close>, so the field of such a domain is cut off and the domain
  resolves to No-Access. With the register 0xC00 (domain 5 Manager) a section of domain 5
  gives the section domain fault.
\<close>

theorem gva_to_gfn_manager_domain_5:
  "drop_bit (2 * 5) (c3_DACR (example_vcpu\<lparr>c3_DACR := 0xC00\<rparr>)) AND 3 = DOMAIN_MANAGER \<and>
   gva_to_gfn example_kernel (example_vcpu\<lparr>c3_DACR := 0xC00\<rparr>) 0x00100000 0 example_map_info =
     Ret (FSR_DOMAIN_SEC, Some 0x100,
          \<lparr>domain_number = 5, ap = 0xff, apx = 0, xn = 0, cache_bits = 0x30\<rparr>)"
  by code_simp

theorem gva_to_gfn_manager_domain_5_witness:
  "(case gva_to_gfn example_kernel (example_vcpu\<lparr>c3_DACR := 0xC00\<rparr>) 0x00100000 0 example_map_info of
      Ret (ret, gfn, mi) \<Rightarrow> ret | Bug \<Rightarrow> 0 | Invalid_access \<Rightarrow> 0) = 9"
  using gva_to_gfn_manager_domain_5 by (simp add: FSR_DOMAIN_SEC_def)

subsection \<open>Fault priority on the coarse path\<close>

text \<open>
  C1: for an address translated through a Coarse level-1 entry (both descriptors are
  read and the level-2 decoder returns a result that is not a negative error), the call
  returns \<^verbatim>\<open>FSR_DOMAIN_PAG\<close> when the level-1 domain check resolves to No-Access, whatever
  the level-2 stage returns (success, translation fault or permission fault); when the
  domain check passes, it returns the code of the level-2 stage.
\<close>

theorem gva_to_gfn_coarse_fault_priority:
  assumes "mmu_enabled v"
    and "get_guest_pgtable_entry k (l1_entry_address k v gva) = (e1, l1_entry)" and "0 \<le> e1"
    and "l1_entry AND L1_TYPE_MASK = L1_TYPE_COARSE"
    and "l1_domain_access v l1_entry mi = (domain_type, mi1)"
    and "get_guest_pgtable_entry k (l2_entry_address l1_entry gva) = (e2, l2_entry)" and "0 \<le> e2"
    and "l2_stage k v gva l2_entry domain_type uaccess mi1 = Ret (err, g, mi2)" and "0 \<le> err"
  shows "gva_to_gfn k v gva uaccess mi =
           Ret (if domain_type = DOMAIN_NOACCESS then FSR_DOMAIN_PAG else err, g, mi2)"
proof -
  have t: "l1_entry AND L1_TYPE_MASK \<noteq> L1_TYPE_FAULT"
    using assms(4) by (simp add: L1_TYPE_COARSE_def L1_TYPE_FAULT_def)
  show ?thesis
    using assms t
    by (simp add: gva_to_gfn_def l1_entry_address_def l2_entry_address_def l2_stage_def
          Let_def FSR_DOMAIN_PAG_def split: if_splits)
qed

text \<open>Two runs on the example guest memory: domain 3 No-Access and a Fault level-2
  descriptor (the domain fault wins over the translation fault), and domain 3 Client
  with a page that user mode may not access (the permission fault is returned).\<close>

theorem gva_to_gfn_coarse_fault_priority_witness:
  "gva_to_gfn example_kernel example_vcpu 0 0 example_map_info =
     Ret (FSR_DOMAIN_PAG, Some 0xffffff,
          \<lparr>domain_number = 3, ap = 0, apx = 0, xn = 0, cache_bits = 0\<rparr>) \<and>
   gva_to_gfn example_kernel (example_vcpu\<lparr>c3_DACR := 0x40\<rparr>) 0x1000 1 example_map_info =
     Ret (FSR_PERM_PAGE, Some 9,
          \<lparr>domain_number = 3, ap = 1, apx = 0, xn = 0, cache_bits = 0\<rparr>)"
proof -
  have a: "gva_to_gfn example_kernel example_vcpu 0 0 example_map_info =
      Ret (if (0::u32) = DOMAIN_NOACCESS then FSR_DOMAIN_PAG else FSR_TRANS_PAGE, Some 0xffffff,
           \<lparr>domain_number = 3, ap = 0, apx = 0, xn = 0, cache_bits = 0\<rparr>)"
    by (rule gva_to_gfn_coarse_fault_priority [of example_vcpu example_kernel 0 0 "0x8061"
          example_map_info 0 "\<lparr>domain_number = 3, ap = 0, apx = 0, xn = 0, cache_bits = 0\<rparr>" 0 0 0])
       code_simp+
  have b: "gva_to_gfn example_kernel (example_vcpu\<lparr>c3_DACR := 0x40\<rparr>) 0x1000 1 example_map_info =
      Ret (if (1::u32) = DOMAIN_NOACCESS then FSR_DOMAIN_PAG else FSR_PERM_PAGE, Some 9,
           \<lparr>domain_number = 3, ap = 1, apx = 0, xn = 0, cache_bits = 0\<rparr>)"
    by (rule gva_to_gfn_coarse_fault_priority [of "example_vcpu\<lparr>c3_DACR := 0x40\<rparr>" example_kernel
          "0x1000" 0 "0x8061" example_map_info 1
          "\<lparr>domain_number = 3, ap = 0, apx = 0, xn = 0, cache_bits = 0\<rparr>" 0 "0x9012" 1])
       code_simp+
  show ?thesis using a b by (simp add: DOMAIN_NOACCESS_def)
qed

subsection \<open>Domain resolution by domain number\<close>

lemma bit_3_u32: "bit (3::u32) j \<longleftrightarrow> j < 2"
proof -
  have m: "(3::u32) = mask 2" by (simp add: mask_eq_exp_minus_1)
  have "bit (mask 2 :: u32) j \<longleftrightarrow> j < 2" by (simp only: bit_mask_iff) auto
  then show ?thesis by (simp only: m)
qed

text \<open>For a section or coarse descriptor of a domain from 4 to 15, \<^verbatim>\<open>l1_domain_access\<close>
  answers No-Access whatever the register holds.\<close>

lemma l1_domain_access_high_domains:
  assumes "\<not> is_supersection l1_entry"
    and "4 \<le> drop_bit L1_DOMAIN_SHIFT (l1_entry AND L1_DOMAIN_MASK)"
  shows "fst (l1_domain_access v l1_entry mi) = DOMAIN_NOACCESS"
proof -
  define d :: u8 where "d = ucast (drop_bit L1_DOMAIN_SHIFT (l1_entry AND L1_DOMAIN_MASK))"
  have le: "drop_bit L1_DOMAIN_SHIFT (l1_entry AND L1_DOMAIN_MASK) \<le> 15"
    by (simp add: L1_DOMAIN_SHIFT_def L1_DOMAIN_MASK_def word_and_le1)
  have "unat d = unat (drop_bit L1_DOMAIN_SHIFT (l1_entry AND L1_DOMAIN_MASK))"
    using le by (simp add: d_def unsigned_ucast_eq unsigned_take_bit_eq take_bit_nat_eq_self word_le_nat_alt)
  then have "4 \<le> unat d"
    using assms(2) by (simp add: word_le_nat_alt)
  then have "(ucast (c3_DACR v AND push_bit (2 * unat d) 3) :: u8) = 0"
    by (intro bit_word_eqI) (auto simp add: bit_simps bit_3_u32)
  then show ?thesis
    using assms(1)
    by (simp add: l1_domain_access_def Let_def domain_val_def DOMAIN_MANAGER_def
          DOMAIN_NOACCESS_def d_def)
qed

lemma bit_3_int: "bit (3 :: int) j \<longleftrightarrow> j < 2"
proof -
  have m: "(3 :: int) = mask 2" by (simp add: mask_eq_exp_minus_1)
  show ?thesis unfolding m by (simp add: bit_mask_iff)
qed

text \<open>For the domains 0 to 3 it answers the field of the domain in the register.\<close>

lemma l1_domain_access_low_domains:
  assumes "\<not> is_supersection l1_entry"
    and "drop_bit L1_DOMAIN_SHIFT (l1_entry AND L1_DOMAIN_MASK) \<le> 3"
  shows "fst (l1_domain_access v l1_entry mi) =
           drop_bit (2 * unat (drop_bit L1_DOMAIN_SHIFT (l1_entry AND L1_DOMAIN_MASK))) (c3_DACR v) AND 3"
proof -
  define w where "w = drop_bit L1_DOMAIN_SHIFT (l1_entry AND L1_DOMAIN_MASK)"
  define d :: u8 where "d = ucast w"
  have le: "unat w \<le> 3" using assms(2) by (simp add: w_def word_le_nat_alt)
  have ud: "unat d = unat w"
    using le by (simp add: d_def unsigned_ucast_eq unsigned_take_bit_eq take_bit_nat_eq_self)
  have "(ucast (drop_bit (2 * unat w) (ucast (c3_DACR v AND push_bit (2 * unat w) 3) :: u8)) :: u32) =
      drop_bit (2 * unat w) (c3_DACR v) AND 3"
    using le by (intro bit_word_eqI) (auto simp add: bit_simps bit_3_int)
  then show ?thesis
    using assms(1) ud
    by (simp add: l1_domain_access_def Let_def domain_val_def DOMAIN_MANAGER_def d_def w_def)
qed

subsection \<open>Dirty or clean release\<close>

text \<open>With 15 as the special domain, a page of any other domain is classified as not
  writable, whatever the register and the access permissions are: the value the
  \<^verbatim>\<open>switch\<close> looks at still has the bits of the higher domains in it, and bit 30 is
  always set.\<close>

lemma mapping_is_guest_writable_guest_domains:
  assumes "KVM_SPECIAL_DOMAIN k = 15" and "domain < 15"
  shows "mapping_is_guest_writable k v domain pte = Ret False"
proof -
  define n where "n = unat domain"
  have n: "n < 15" using assms(2) by (simp add: n_def word_less_nat_alt)
  define sel :: u32 where "sel = drop_bit (n * 2) ((c3_DACR v AND 0x3fffffff) OR push_bit 30 1)"
  have b: "bit sel (30 - n * 2)"
    using n by (simp add: sel_def bit_simps)
  have "\<not> bit (3 :: u32) (30 - n * 2)"
    using n bit_3_u32 [of "30 - n * 2"] by linarith
  moreover have "\<not> bit (1 :: u32) (30 - n * 2)"
    using n bit_1_iff [of "30 - n * 2", where ?'a = u32] by linarith
  ultimately have "sel \<noteq> 3" "sel \<noteq> 1" using b by auto
  moreover have "\<not> domain > 15" using assms(2) by simp
  ultimately show ?thesis
    using assms(1)
    by (simp add: mapping_is_guest_writable_def Let_def domain_val_def DOMAIN_CLIENT_def
          DOMAIN_MANAGER_def DOMAIN_NOACCESS_def sel_def n_def)
qed

text \<open>
  C5: a reclaimed page is released as dirty exactly when its domain is Manager, or Client
  with read-write access permissions. The code does not do this: with the register 0xC0
  (domain 3 Manager) a page installed read-write in domain 3 and reclaimed by
  \<^verbatim>\<open>unmap_gva_section\<close> is released as clean.
\<close>

theorem release_manager_domain_page_clean:
  "drop_bit (2 * 3) (c3_DACR (cpu example_manager_machine)) AND 3 = DOMAIN_MANAGER \<and>
   mapping_is_guest_writable example_kernel (cpu example_manager_machine) 3 0x0030083E = Ret False \<and>
   (case obind (map_gva_to_pfn example_kernel 0 0x00100000 0x300 3 KVM_AP_RDWRITE KVM_AP_RDWRITE 0
                  example_manager_machine)
           (\<lambda>(ret, m). unmap_gva_section example_kernel 0 0x00100000 m) of
      Ret (ret, m) \<Rightarrow> Some (ret, released m) | Bug \<Rightarrow> None | Invalid_access \<Rightarrow> None) =
     Some (0, [(0x300, False)])"
  by code_simp

theorem release_manager_domain_page_clean_witness:
  "mapping_is_guest_writable example_kernel (cpu example_manager_machine) 3 0x0030083E \<noteq> Ret True"
  using release_manager_domain_page_clean by simp


subsection \<open>Unexpected descriptors in the shadow tables\<close>

lemma obind_Ret_iff: "obind m f = Ret y \<longleftrightarrow> (\<exists>x. m = Ret x \<and> f x = Ret y)"
  by (cases m) (simp_all add: obind_def)

text \<open>A loop does not return when one of its steps never returns and the steps before
  it keep what makes that step stop.\<close>

lemma ofold_never_returns:
  assumes "j \<in> set xs" and "P s"
    and halt: "\<And>s s'. P s \<Longrightarrow> f j s \<noteq> Ret s'"
    and pres: "\<And>x s s'. x \<noteq> j \<Longrightarrow> P s \<Longrightarrow> f x s = Ret s' \<Longrightarrow> P s'"
  shows "ofold f xs s \<noteq> Ret s'"
  using assms(1,2)
proof (induction xs arbitrary: s)
  case Nil
  then show ?case by simp
next
  case (Cons x xs)
  show ?case
  proof (cases "x = j")
    case True
    then show ?thesis using halt [OF Cons.prems(2)] by (simp add: obind_Ret_iff)
  next
    case False
    then have "j \<in> set xs" using Cons.prems(1) by simp
    then show ?thesis
      using Cons.IH pres [OF False Cons.prems(2)] by (auto simp add: obind_Ret_iff)
  qed
qed

lemma free_l2_shadow_pgds: "free_l2_shadow k e m = Ret m' \<Longrightarrow> pgds m' = pgds m"
  by (auto simp add: free_l2_shadow_def obind_Ret_iff split: option.splits if_splits)

lemma free_l1_child_keeps_entry:
  assumes "free_l1_child k pgd x m = Ret m'" and "x \<noteq> j" and "pgds m pgd = Some tbl"
  shows "\<exists>tbl'. pgds m' pgd = Some tbl' \<and> tbl' j = tbl j"
  using assms
  by (auto simp add: free_l1_child_def obind_Ret_iff split: if_splits dest!: free_l2_shadow_pgds)

lemma free_l1_child_bad_entry:
  assumes "pgds m pgd = Some tbl"
    and "tbl i AND L1_TYPE_MASK \<noteq> L1_TYPE_FAULT" and "tbl i AND L1_TYPE_MASK \<noteq> L1_TYPE_COARSE"
  shows "free_l1_child k pgd i m = Bug"
  using assms by (simp add: free_l1_child_def)

lemma free_l1_shadow_children_loop_bad_entry:
  assumes "pgds m pgd = Some tbl" and "i < L1_TABLE_ENTRIES"
    and "tbl i AND L1_TYPE_MASK \<noteq> L1_TYPE_FAULT" and "tbl i AND L1_TYPE_MASK \<noteq> L1_TYPE_COARSE"
  shows "free_l1_shadow_children_loop k pgd m \<noteq> Ret m'"
  unfolding free_l1_shadow_children_loop_def
proof (rule ofold_never_returns [where j = i and P = "\<lambda>s. \<exists>t. pgds s pgd = Some t \<and> t i = tbl i"])
  show "i \<in> set [0..<L1_TABLE_ENTRIES]" using assms(2) by simp
  show "\<exists>t. pgds m pgd = Some t \<and> t i = tbl i" using assms(1) by simp
next
  fix s s' :: machine assume "\<exists>t. pgds s pgd = Some t \<and> t i = tbl i"
  then show "free_l1_child k pgd i s \<noteq> Ret s'"
    using assms(3,4) by (auto simp add: free_l1_child_bad_entry)
next
  fix x and s s' :: machine
  assume "x \<noteq> i" "\<exists>t. pgds s pgd = Some t \<and> t i = tbl i" "free_l1_child k pgd x s = Ret s'"
  then show "\<exists>t. pgds s' pgd = Some t \<and> t i = tbl i"
    using free_l1_child_keeps_entry by fastforce
qed

text \<open>
  C3, as the code has it: freeing the children of a root stops the kernel at a level-1
  entry that is neither Fault nor Coarse (the step of the loop ends in \<^verbatim>\<open>BUG()\<close>, and
  neither \<^verbatim>\<open>free_l1_shadow_children\<close> nor \<^verbatim>\<open>kvm_free_l1_shadow\<close> returns); releasing a
  large-page level-2 descriptor and translating one stop the kernel; but
  \<^verbatim>\<open>__map_gva_to_pfn\<close>, \<^verbatim>\<open>unmap_gva\<close> and \<^verbatim>\<open>unmap_gva_section\<close> return \<^verbatim>\<open>-EFAULT\<close> at such a
  level-1 entry and leave the memory as it was.
\<close>

theorem shadow_table_fatal_conditions:
  "(pgds m pgd = Some tbl \<and> i < L1_TABLE_ENTRIES \<and>
    tbl i AND L1_TYPE_MASK \<noteq> L1_TYPE_FAULT \<and> tbl i AND L1_TYPE_MASK \<noteq> L1_TYPE_COARSE \<longrightarrow>
      free_l1_child k pgd i m = Bug \<and>
      (\<forall>m'. free_l1_shadow_children k pgd m \<noteq> Ret m') \<and>
      (\<forall>m'. kvm_free_l1_shadow k pgd m \<noteq> Ret m')) \<and>
   (pte AND L2_TYPE_MASK = L2_TYPE_LARGE \<longrightarrow>
      release_l2_shadow_entry k v domain pte rel = Bug \<and>
      trans_coarse_entry k v gva pte domain_type uaccess mi = Bug \<and>
      trans_coarse_entry_xp k v gva pte domain_type uaccess mi = Bug) \<and>
   (pgds m pgd = Some tbl \<and>
    tbl (unat (drop_bit 20 gva)) AND L1_TYPE_MASK \<noteq> L1_TYPE_FAULT \<and>
    tbl (unat (drop_bit 20 gva)) AND L1_TYPE_MASK \<noteq> L1_TYPE_COARSE \<longrightarrow>
      uu_map_gva_to_pfn k pgd gva pfn domain a x xnv m = Ret (- EFAULT, m) \<and>
      unmap_gva k pgd gva m = Ret (- EFAULT, m) \<and>
      unmap_gva_section k pgd gva m = Ret (- EFAULT, m))"
proof (intro conjI impI allI)
  fix m'
  assume a: "pgds m pgd = Some tbl \<and> i < L1_TABLE_ENTRIES \<and>
    tbl i AND L1_TYPE_MASK \<noteq> L1_TYPE_FAULT \<and> tbl i AND L1_TYPE_MASK \<noteq> L1_TYPE_COARSE"
  then show "free_l1_child k pgd i m = Bug" by (simp add: free_l1_child_bad_entry)
  have loop: "\<And>m'. free_l1_shadow_children_loop k pgd m \<noteq> Ret m'"
    using a free_l1_shadow_children_loop_bad_entry by blast
  then show c: "free_l1_shadow_children k pgd m \<noteq> Ret m'" for m'
    by (simp add: free_l1_shadow_children_def obind_Ret_iff)
  then show "kvm_free_l1_shadow k pgd m \<noteq> Ret m'"
    by (simp add: kvm_free_l1_shadow_def obind_Ret_iff)
next
  assume "pte AND L2_TYPE_MASK = L2_TYPE_LARGE"
  then show "release_l2_shadow_entry k v domain pte rel = Bug"
    "trans_coarse_entry k v gva pte domain_type uaccess mi = Bug"
    "trans_coarse_entry_xp k v gva pte domain_type uaccess mi = Bug"
    by (simp_all add: release_l2_shadow_entry_def trans_coarse_entry_def trans_coarse_entry_xp_def
          L2_TYPE_LARGE_def L2_TYPE_FAULT_def L2_XP_TYPE_EXT_SMALL_def)
next
  assume "pgds m pgd = Some tbl \<and>
    tbl (unat (drop_bit 20 gva)) AND L1_TYPE_MASK \<noteq> L1_TYPE_FAULT \<and>
    tbl (unat (drop_bit 20 gva)) AND L1_TYPE_MASK \<noteq> L1_TYPE_COARSE"
  then show "uu_map_gva_to_pfn k pgd gva pfn domain a x xnv m = Ret (- EFAULT, m)"
    "unmap_gva k pgd gva m = Ret (- EFAULT, m)"
    "unmap_gva_section k pgd gva m = Ret (- EFAULT, m)"
    by (simp_all add: uu_map_gva_to_pfn_def unmap_gva_def unmap_gva_section_def Let_def
          split: prod.splits)
qed

theorem shadow_table_fatal_conditions_witness:
  "free_l1_child example_kernel 0 0 example_section_machine = Bug \<and>
   (\<forall>m'. free_l1_shadow_children example_kernel 0 example_section_machine \<noteq> Ret m') \<and>
   (\<forall>m'. kvm_free_l1_shadow example_kernel 0 example_section_machine \<noteq> Ret m') \<and>
   release_l2_shadow_entry example_kernel example_vcpu 3 0x00009001 [] = Bug \<and>
   trans_coarse_entry example_kernel example_vcpu 0x2000 0x00009001 1 0 example_map_info = Bug \<and>
   trans_coarse_entry_xp example_kernel example_vcpu 0x2000 0x00009001 1 0 example_map_info = Bug \<and>
   uu_map_gva_to_pfn example_kernel 0 0x2000 0x300 3 0xff 0 0 example_section_machine =
     Ret (- EFAULT, example_section_machine) \<and>
   unmap_gva example_kernel 0 0x2000 example_section_machine = Ret (- EFAULT, example_section_machine) \<and>
   unmap_gva_section example_kernel 0 0x2000 example_section_machine =
     Ret (- EFAULT, example_section_machine)"
  using shadow_table_fatal_conditions [where m = example_section_machine and pgd = 0
      and tbl = "(\<lambda>i. 0)(0 := 0x00100C02)" and i = 0 and k = example_kernel
      and pte = "0x00009001" and v = example_vcpu and domain = 3 and rel = "[]"
      and gva = "0x2000" and domain_type = 1 and uaccess = 0 and mi = example_map_info
      and pfn = "0x300" and a = "0xff" and x = 0 and xnv = 0]
  by (simp add: example_section_machine_def L1_TABLE_ENTRIES_def L1_TYPE_MASK_def
        L1_TYPE_FAULT_def L1_TYPE_COARSE_def L2_TYPE_MASK_def L2_TYPE_LARGE_def)

text \<open>The claim as it is written fails for the functions that return: on a root whose
  first entry is a section descriptor, \<^verbatim>\<open>unmap_gva\<close> returns \<^verbatim>\<open>-EFAULT\<close>.\<close>

theorem unmap_gva_section_entry_returns:
  "the (pgds example_section_machine 0) 0 AND L1_TYPE_MASK = L1_TYPE_SECTION \<and>
   unmap_gva example_kernel 0 0 example_section_machine = Ret (- EFAULT, example_section_machine) \<and>
   unmap_gva example_kernel 0 0 example_section_machine \<noteq> Bug"
  by (simp add: unmap_gva_def example_section_machine_def L1_TYPE_MASK_def L1_TYPE_SECTION_def
        L1_TYPE_FAULT_def L1_TYPE_COARSE_def)

subsection \<open>Idempotence\<close>

text \<open>
  C10: \<^verbatim>\<open>unmap_gva\<close> on an address whose mapping is absent (the level-1 entry is Fault, or
  it is Coarse and the level-2 entry of the address is zero) returns 0 and leaves the
  whole memory as it was: tables, counts and released pages; and
  \<^verbatim>\<open>kvm_switch_host_vectors\<close> with the base that is already active returns 0 and changes
  nothing.
\<close>

theorem unmap_gva_and_switch_idempotent:
  "(pgds m pgd = Some tbl \<and>
    (tbl (unat (drop_bit 20 gva)) AND L1_TYPE_MASK = L1_TYPE_FAULT \<or>
     tbl (unat (drop_bit 20 gva)) AND L1_TYPE_MASK = L1_TYPE_COARSE \<and>
     get_l2_base k (tbl (unat (drop_bit 20 gva))) = Inr (f, s) \<and>
     pages m f = Some pg \<and> entries pg (s * L2_TABLE_ENTRIES + l2_index gva) = 0) \<longrightarrow>
      unmap_gva k pgd gva m = Ret (0, m)) \<and>
   (high = host_vectors_high (cpu m) \<longrightarrow> kvm_switch_host_vectors k high m = Ret (0, m))"
proof (intro conjI impI)
  assume a: "pgds m pgd = Some tbl \<and>
    (tbl (unat (drop_bit 20 gva)) AND L1_TYPE_MASK = L1_TYPE_FAULT \<or>
     tbl (unat (drop_bit 20 gva)) AND L1_TYPE_MASK = L1_TYPE_COARSE \<and>
     get_l2_base k (tbl (unat (drop_bit 20 gva))) = Inr (f, s) \<and>
     pages m f = Some pg \<and> entries pg (s * L2_TABLE_ENTRIES + l2_index gva) = 0)"
  show "unmap_gva k pgd gva m = Ret (0, m)"
  proof (cases "tbl (unat (drop_bit 20 gva)) AND L1_TYPE_MASK = L1_TYPE_FAULT")
    case True
    then show ?thesis using a by (simp add: unmap_gva_def)
  next
    case False
    then have c: "tbl (unat (drop_bit 20 gva)) AND L1_TYPE_MASK = L1_TYPE_COARSE"
      and g: "get_l2_base k (tbl (unat (drop_bit 20 gva))) = Inr (f, s)"
      and p: "pages m f = Some pg" and z: "entries pg (s * L2_TABLE_ENTRIES + l2_index gva) = 0"
      using a by auto
    have e: "(entries pg)(s * L2_TABLE_ENTRIES + l2_index gva := 0) = entries pg"
      using z by (metis fun_upd_triv)
    have "(pages m)(f \<mapsto> pg) = pages m"
      using p by (simp add: map_upd_triv)
    then have "write_l2 (f, s) (l2_index gva) 0 m = Ret m"
      using p e by (simp add: write_l2_def)
    then show ?thesis
      using a False c g by (simp add: unmap_gva_def obind_def)
  qed
next
  assume "high = host_vectors_high (cpu m)"
  then show "kvm_switch_host_vectors k high m = Ret (0, m)"
    by (simp add: kvm_switch_host_vectors_def)
qed


text \<open>Three runs: an address in a section that was never mapped, a page that was never
  mapped in a section that has a sub-table, and a switch to the low vectors while they
  are in use.\<close>

theorem unmap_gva_and_switch_idempotent_witness:
  "unmap_gva example_kernel 0 0x00200000 example_mapped_machine = Ret (0, example_mapped_machine) \<and>
   unmap_gva example_kernel 0 0x00101000 example_mapped_machine = Ret (0, example_mapped_machine) \<and>
   kvm_switch_host_vectors example_kernel 0 example_mapped_machine = Ret (0, example_mapped_machine)"
proof -
  let ?M = example_mapped_machine
  have r: "pgds ?M 0 \<noteq> None" by code_simp
  have p: "pages ?M 0x500 \<noteq> None" by code_simp
  have t1: "the (pgds ?M 0) (unat (drop_bit 20 (0x00200000 :: u32))) AND L1_TYPE_MASK = L1_TYPE_FAULT"
    by code_simp
  have t2: "the (pgds ?M 0) (unat (drop_bit 20 (0x00101000 :: u32))) AND L1_TYPE_MASK = L1_TYPE_COARSE"
    by code_simp
  have g: "get_l2_base example_kernel (the (pgds ?M 0) (unat (drop_bit 20 (0x00101000 :: u32)))) =
      Inr (0x500, 0)"
    by code_simp
  have z: "entries (the (pages ?M 0x500)) (0 * L2_TABLE_ENTRIES + l2_index 0x00101000) = 0"
    by code_simp
  have h: "host_vectors_high (cpu ?M) = 0" by code_simp
  show ?thesis
    using unmap_gva_and_switch_idempotent [where m = ?M and pgd = 0 and tbl = "the (pgds ?M 0)"
        and gva = "0x00200000" and k = example_kernel and high = 0]
      unmap_gva_and_switch_idempotent [where m = ?M and pgd = 0 and tbl = "the (pgds ?M 0)"
        and gva = "0x00101000" and k = example_kernel and f = "0x500" and s = 0
        and pg = "the (pages ?M 0x500)" and high = 0]
      r p t1 t2 g z h
    by simp
qed


subsection \<open>Bit fields of the level-1 descriptors\<close>

lemma u32_masks:
  "(0x3::u32) = mask 2" "(0xf::u32) = mask 4" "(0x3ff::u32) = mask 10"
  "(0xc00::u32) = push_bit 10 (mask 2)" "(0xfffff000::u32) = NOT (mask 12)"
  "(0xf::u8) = mask 4"
  by (simp_all add: mask_eq_exp_minus_1)

lemma l1_update_domain_field:
  "drop_bit L1_DOMAIN_SHIFT
     (((e AND NOT L1_DOMAIN_MASK) OR push_bit L1_DOMAIN_SHIFT (ucast (d AND 0xf))) AND L1_DOMAIN_MASK) =
   (ucast ((d::u8) AND 0xf) :: u32)"
  unfolding L1_DOMAIN_MASK_def L1_DOMAIN_SHIFT_def u32_masks
  by (rule bit_word_eqI) (auto simp add: bit_simps)

lemma l1_update_domain_type:
  "((e AND NOT L1_DOMAIN_MASK) OR push_bit L1_DOMAIN_SHIFT (ucast ((d::u8) AND 0xf))) AND L1_TYPE_MASK =
   e AND L1_TYPE_MASK"
  unfolding L1_DOMAIN_MASK_def L1_DOMAIN_SHIFT_def L1_TYPE_MASK_def u32_masks
  by (rule bit_word_eqI) (auto simp add: bit_simps)

lemma l1_update_domain_frame:
  "l1_frame ((e AND NOT L1_DOMAIN_MASK) OR push_bit L1_DOMAIN_SHIFT (ucast ((d::u8) AND 0xf))) =
   l1_frame e"
  unfolding L1_DOMAIN_MASK_def L1_DOMAIN_SHIFT_def l1_frame_def PAGE_SHIFT_def u32_masks
  by (rule bit_word_eqI) (auto simp add: bit_simps dest: bit_imp_le_length)

lemma l1_update_domain_slot:
  "l1_slot ((e AND NOT L1_DOMAIN_MASK) OR push_bit L1_DOMAIN_SHIFT (ucast ((d::u8) AND 0xf))) =
   l1_slot e"
proof -
  have "drop_bit 10 (((e AND NOT L1_DOMAIN_MASK) OR push_bit L1_DOMAIN_SHIFT (ucast (d AND 0xf))) AND 0xc00)
      = drop_bit 10 (e AND 0xc00)"
    unfolding L1_DOMAIN_MASK_def L1_DOMAIN_SHIFT_def u32_masks
    by (rule bit_word_eqI) (auto simp add: bit_simps)
  then show ?thesis by (simp add: l1_slot_def)
qed

lemma l1_coarse_descriptor_type:
  "l1_coarse_descriptor f s d AND L1_TYPE_MASK = L1_TYPE_COARSE"
  unfolding l1_coarse_descriptor_def Let_def L1_DOMAIN_SHIFT_def L1_TYPE_MASK_def L1_TYPE_COARSE_def
    L1_COARSE_MASK_def PAGE_MASK_def PAGE_SHIFT_def u32_masks
  by (rule bit_word_eqI) (auto simp add: bit_simps)

lemma l1_coarse_descriptor_domain:
  "drop_bit L1_DOMAIN_SHIFT (l1_coarse_descriptor f s d AND L1_DOMAIN_MASK) = ucast (d AND 0xf)"
  unfolding l1_coarse_descriptor_def Let_def L1_DOMAIN_SHIFT_def L1_DOMAIN_MASK_def L1_TYPE_COARSE_def
    L1_COARSE_MASK_def PAGE_MASK_def PAGE_SHIFT_def u32_masks
  by (rule bit_word_eqI) (auto simp add: bit_simps)

lemma l1_coarse_descriptor_frame:
  assumes "take_bit 20 f = f"
  shows "l1_frame (l1_coarse_descriptor f s d) = f"
proof -
  have "l1_frame (l1_coarse_descriptor (take_bit 20 f) s d) = take_bit 20 f"
    unfolding l1_coarse_descriptor_def Let_def L1_DOMAIN_SHIFT_def L1_TYPE_COARSE_def l1_frame_def
      L1_COARSE_MASK_def PAGE_MASK_def PAGE_SHIFT_def u32_masks
    by (rule bit_word_eqI) (auto simp add: bit_simps)
  then show ?thesis using assms by simp
qed

lemma l1_coarse_descriptor_slot:
  assumes "s < 4"
  shows "l1_slot (l1_coarse_descriptor f s d) = s"
proof -
  have s: "take_bit 2 s = s" using assms by (simp add: take_bit_nat_eq_self)
  have "drop_bit 10 (l1_coarse_descriptor f (take_bit 2 s) d AND 0xc00) = of_nat (take_bit 2 s)"
    unfolding l1_coarse_descriptor_def Let_def L1_DOMAIN_SHIFT_def L1_TYPE_COARSE_def
      L1_COARSE_MASK_def PAGE_MASK_def PAGE_SHIFT_def u32_masks
    by (rule bit_word_eqI) (auto simp add: bit_simps)
  then have "l1_slot (l1_coarse_descriptor f s d) = unat (of_nat s :: u32)"
    using s by (simp add: l1_slot_def)
  then show ?thesis using assms by (simp add: unat_of_nat)
qed

subsection \<open>The functions by cases\<close>

text \<open>\<^verbatim>\<open>alloc_l2_shadow\<close> by cases: the next slot of the frame in use, or the first slot of a
  new frame, or no memory.\<close>

lemma alloc_l2_shadow_cases:
  "alloc_l2_shadow m =
     (case l2_unused_pt (cpu m) of
        Some (f, s) \<Rightarrow>
          (case pages m f of
             None \<Rightarrow> Invalid_access
           | Some pg \<Rightarrow>
               Ret (Inr (f, s),
                    m\<lparr>cpu := (cpu m)\<lparr>l2_unused_pt := (if Suc s = 4 then None else Some (f, Suc s))\<rparr>,
                      pages := (pages m)(f \<mapsto> pg\<lparr>page_private := Suc (page_private pg)\<rparr>)\<rparr>))
      | None \<Rightarrow>
          (case free_pages m of
             [] \<Rightarrow> Ret (Inl (- ENOMEM), m)
           | f # fs \<Rightarrow>
               Ret (Inr (f, 0),
                    m\<lparr>free_pages := fs,
                      pages := (pages m)(f \<mapsto> \<lparr>page_private = Suc 0, entries = (\<lambda>i. 0)\<rparr>),
                      cpu := (cpu m)\<lparr>l2_unused_pt := Some (f, Suc 0)\<rparr>\<rparr>)))"
  by (simp add: alloc_l2_shadow_def obind_def Let_def split: option.splits list.splits prod.splits)

text \<open>\<^verbatim>\<open>__map_gva_to_pfn\<close> at a level-1 entry that is neither Fault nor Coarse, at a Coarse
  entry, and at a Fault entry.\<close>

lemma uu_map_gva_to_pfn_other:
  assumes "pgds m pgd = Some tbl"
    and "tbl (unat (drop_bit 20 gva)) AND L1_TYPE_MASK \<noteq> L1_TYPE_FAULT"
    and "tbl (unat (drop_bit 20 gva)) AND L1_TYPE_MASK \<noteq> L1_TYPE_COARSE"
  shows "uu_map_gva_to_pfn k pgd gva pfn domain a x xnv m = Ret (- EFAULT, m)"
  using assms by (simp add: uu_map_gva_to_pfn_def Let_def split: prod.splits)

lemma uu_map_gva_to_pfn_coarse:
  assumes "pgds m pgd = Some tbl"
    and "tbl (unat (drop_bit 20 gva)) AND L1_TYPE_MASK = L1_TYPE_COARSE"
    and "install_domain k (cpu m) gva domain a x = (a1, x1, d1)"
    and "l1_new = (tbl (unat (drop_bit 20 gva)) AND NOT L1_DOMAIN_MASK)
                    OR push_bit L1_DOMAIN_SHIFT (ucast (d1 AND 0xf))"
    and "m1 = m\<lparr>pgds := (pgds m)(pgd \<mapsto> tbl(unat (drop_bit 20 gva) := l1_new))\<rparr>"
    and "f = l1_frame (tbl (unat (drop_bit 20 gva)))" and "s = l1_slot (tbl (unat (drop_bit 20 gva)))"
  shows "uu_map_gva_to_pfn k pgd gva pfn domain a x xnv m =
           (if \<not> pfn_valid k f then Ret (- EFAULT, m1)
            else case pages m f of
                   None \<Rightarrow> Invalid_access
                 | Some pg \<Rightarrow>
                     Ret (0, m1\<lparr>pages := (pages m)(f \<mapsto> pg\<lparr>entries := (entries pg)
                            (s * L2_TABLE_ENTRIES + l2_index gva :=
                               l2_descriptor pfn a1 x1 xnv (install_nG k gva))\<rparr>)\<rparr>))"
proof -
  have nf: "tbl (unat (drop_bit 20 gva)) AND L1_TYPE_MASK \<noteq> L1_TYPE_FAULT"
    using assms(2) by (simp add: L1_TYPE_COARSE_def L1_TYPE_FAULT_def)
  have fr: "l1_frame l1_new = f" "l1_slot l1_new = s"
    using assms(4,6,7) by (simp_all add: l1_update_domain_frame l1_update_domain_slot)
  have g: "get_l2_base k l1_new = (if \<not> pfn_valid k f then Inl (- EFAULT) else Inr (f, s))"
    using fr by (simp add: get_l2_base_def l1_frame_def)
  show ?thesis
    using assms(1,2,3) nf g assms(4,5)
    by (simp add: uu_map_gva_to_pfn_def Let_def write_l2_def obind_def split: option.splits)
qed

lemma uu_map_gva_to_pfn_fault:
  assumes "pgds m pgd = Some tbl"
    and "tbl (unat (drop_bit 20 gva)) AND L1_TYPE_MASK = L1_TYPE_FAULT"
    and "install_domain k (cpu m) gva domain a x = (a1, x1, d1)"
    and "val = l2_descriptor pfn a1 x1 xnv (install_nG k gva)"
  shows "uu_map_gva_to_pfn k pgd gva pfn domain a x xnv m =
     (case l2_unused_pt (cpu m) of
        Some (f, s) \<Rightarrow>
          (case pages m f of
             None \<Rightarrow> Invalid_access
           | Some pg \<Rightarrow>
               Ret (0,
                    m\<lparr>cpu := (cpu m)\<lparr>l2_unused_pt := (if Suc s = 4 then None else Some (f, Suc s))\<rparr>,
                      pgds := (pgds m)(pgd \<mapsto> tbl(unat (drop_bit 20 gva) := l1_coarse_descriptor f s d1)),
                      pages := (pages m)(f \<mapsto> pg\<lparr>page_private := Suc (page_private pg),
                          entries := (entries pg)(s * L2_TABLE_ENTRIES + l2_index gva := val)\<rparr>)\<rparr>))
      | None \<Rightarrow>
          (case free_pages m of
             [] \<Rightarrow> Ret (- ENOMEM, m)
           | f # fs \<Rightarrow>
               Ret (0,
                    m\<lparr>cpu := (cpu m)\<lparr>l2_unused_pt := Some (f, Suc 0)\<rparr>,
                      pgds := (pgds m)(pgd \<mapsto> tbl(unat (drop_bit 20 gva) := l1_coarse_descriptor f 0 d1)),
                      pages := (pages m)(f \<mapsto> \<lparr>page_private = Suc 0,
                          entries = (\<lambda>i. 0)(l2_index gva := val)\<rparr>),
                      free_pages := fs\<rparr>)))"
  using assms
  by (simp add: uu_map_gva_to_pfn_def Let_def alloc_l2_shadow_cases write_l2_def obind_def
      split: option.splits list.splits)

subsection \<open>The special regions\<close>

lemma l2_descriptor_masks:
  "(0xc::u32) = push_bit 2 (mask 2)" "(0xff0::u32) = push_bit 4 (mask 8)" "(0x3::u8) = mask 2"
  "(0x1::u8) = mask 1" "(2::u32) = push_bit 1 1"
  by (simp_all add: mask_eq_exp_minus_1)

text \<open>The access-permission bits of the level-2 descriptor that is written are the low two
  bits of the access permissions passed, and bit 9 is the \<^verbatim>\<open>apx\<close>.\<close>

lemma l2_descriptor_ap:
  "drop_bit 4 (l2_descriptor pfn a x xnv nG) AND 0x3 = ucast (a AND 0x3)"
  unfolding l2_descriptor_def Let_def PAGE_SHIFT_def L2_XP_TYPE_EXT_SMALL_def
    l2_descriptor_masks u32_masks
  by (rule bit_word_eqI) (auto simp add: bit_simps)

lemma l2_descriptor_apx:
  "drop_bit 9 (l2_descriptor pfn a x xnv nG) AND 0x1 = ucast (x AND 0x1)"
  unfolding l2_descriptor_def Let_def PAGE_SHIFT_def L2_XP_TYPE_EXT_SMALL_def
    l2_descriptor_masks u32_masks
  by (rule bit_word_eqI) (auto simp add: bit_simps)

text \<open>Bits 6 to 8 of the descriptor are clear.\<close>

lemma l2_descriptor_tex:
  "drop_bit 6 (l2_descriptor pfn a x xnv nG) AND 0x7 = 0"
proof -
  have m: "(0x7::u32) = mask 3" by (simp add: mask_eq_exp_minus_1)
  show ?thesis
    unfolding l2_descriptor_def Let_def PAGE_SHIFT_def L2_XP_TYPE_EXT_SMALL_def
      l2_descriptor_masks u32_masks m
    by (rule bit_word_eqI) (auto simp add: bit_simps)
qed

text \<open>The low two bits of the replicated access permissions are those of \<^verbatim>\<open>calc_aps\<close>.\<close>

lemma install_ap_low:
  "install_ap k priv_ap user_ap AND 0x3 = fst (calc_aps k priv_ap user_ap) AND 0x3"
proof -
  have l: "[0..<4] = [0, 1, 2, 3::nat]" by (simp add: upt_rec)
  have m: "(0x3::u8) = mask 2" by (simp add: mask_eq_exp_minus_1)
  show ?thesis
    unfolding install_ap_def l foldl.simps m
    by (rule bit_word_eqI) (auto simp add: bit_and_iff bit_or_iff bit_push_bit_iff bit_mask_iff
        simp del: push_bit_eq_mult)
qed

lemma install_domain_special:
  assumes "in_special_region k v gva"
  shows "install_domain k v gva domain a x =
           (if domain = KVM_SPECIAL_DOMAIN k then a else fst (dom_to_ap k v domain a x),
            if domain = KVM_SPECIAL_DOMAIN k then x else snd (dom_to_ap k v domain a x),
            KVM_SPECIAL_DOMAIN k)"
  using assms by (auto simp add: install_domain_def in_special_region_def)

lemma l1_domain_written:
  "l1_domain (l1_coarse_descriptor f s d) = ucast (d AND 0xf)"
  "l1_domain ((e AND NOT L1_DOMAIN_MASK) OR push_bit L1_DOMAIN_SHIFT (ucast (d AND 0xf))) =
     ucast (d AND 0xf)"
  by (simp_all only: l1_domain_def l1_coarse_descriptor_domain l1_update_domain_field)

text \<open>What \<^verbatim>\<open>__map_gva_to_pfn\<close> writes for an address in a special region.\<close>

lemma uu_map_gva_to_pfn_special_region:
  assumes reg: "in_special_region k (cpu m) gva"
    and tbl: "pgds m pgd = Some tbl"
    and run: "uu_map_gva_to_pfn k pgd gva pfn domain a x xnv m = Ret (ret, m')"
  shows "\<exists>tbl'. pgds m' pgd = Some tbl' \<and>
           (tbl' (unat (drop_bit 20 gva)) \<noteq> tbl (unat (drop_bit 20 gva)) \<or> ret = 0 \<longrightarrow>
              tbl' (unat (drop_bit 20 gva)) AND L1_TYPE_MASK = L1_TYPE_COARSE \<and>
              l1_domain (tbl' (unat (drop_bit 20 gva))) = ucast (KVM_SPECIAL_DOMAIN k AND 0xf)) \<and>
           (ret = 0 \<longrightarrow>
              (\<exists>f s pg.
                 (if tbl (unat (drop_bit 20 gva)) AND L1_TYPE_MASK = L1_TYPE_FAULT
                  then tbl' (unat (drop_bit 20 gva)) = l1_coarse_descriptor f s (KVM_SPECIAL_DOMAIN k)
                  else f = l1_frame (tbl' (unat (drop_bit 20 gva))) \<and>
                       s = l1_slot (tbl' (unat (drop_bit 20 gva)))) \<and>
                 pages m' f = Some pg \<and>
                 entries pg (s * L2_TABLE_ENTRIES + l2_index gva) =
                   l2_descriptor pfn
                     (if domain = KVM_SPECIAL_DOMAIN k then a
                      else fst (dom_to_ap k (cpu m) domain a x))
                     (if domain = KVM_SPECIAL_DOMAIN k then x
                      else snd (dom_to_ap k (cpu m) domain a x)) xnv (install_nG k gva)))"
proof -
  let ?i = "unat (drop_bit 20 gva)"
  define a1 where "a1 = (if domain = KVM_SPECIAL_DOMAIN k then a else fst (dom_to_ap k (cpu m) domain a x))"
  define x1 where "x1 = (if domain = KVM_SPECIAL_DOMAIN k then x else snd (dom_to_ap k (cpu m) domain a x))"
  define val where "val = l2_descriptor pfn a1 x1 xnv (install_nG k gva)"
  have sel: "install_domain k (cpu m) gva domain a x = (a1, x1, KVM_SPECIAL_DOMAIN k)"
    using reg by (simp add: install_domain_special a1_def x1_def)
  have val': "l2_descriptor pfn
      (if domain = KVM_SPECIAL_DOMAIN k then a else fst (dom_to_ap k (cpu m) domain a x))
      (if domain = KVM_SPECIAL_DOMAIN k then x else snd (dom_to_ap k (cpu m) domain a x))
      xnv (install_nG k gva) = val"
    by (simp only: val_def a1_def x1_def)
  consider (fault) "tbl ?i AND L1_TYPE_MASK = L1_TYPE_FAULT"
    | (coarse) "tbl ?i AND L1_TYPE_MASK \<noteq> L1_TYPE_FAULT" "tbl ?i AND L1_TYPE_MASK = L1_TYPE_COARSE"
    | (other) "tbl ?i AND L1_TYPE_MASK \<noteq> L1_TYPE_FAULT" "tbl ?i AND L1_TYPE_MASK \<noteq> L1_TYPE_COARSE"
    by blast
  then show ?thesis
  proof cases
    case fault
    let ?P = "\<lambda>f s. m' = m \<and> ret \<noteq> 0 \<or>
        ret = 0 \<and> pgds m' pgd = Some (tbl(?i := l1_coarse_descriptor f s (KVM_SPECIAL_DOMAIN k))) \<and>
        (\<exists>pg. pages m' f = Some pg \<and> entries pg (s * L2_TABLE_ENTRIES + l2_index gva) = val)"
    note eq = uu_map_gva_to_pfn_fault [OF tbl fault sel val_def]
    have "\<exists>f s. ?P f s"
    proof (cases "l2_unused_pt (cpu m)")
      case None
      show ?thesis
      proof (cases "free_pages m")
        case Nil
        with None run have "?P 0 0" unfolding eq by (simp add: ENOMEM_def)
        then show ?thesis by blast
      next
        case (Cons f fs)
        with None run have "?P f 0" unfolding eq by auto
        then show ?thesis by blast
      qed
    next
      case (Some fs)
      obtain f s where fs: "fs = (f, s)" by (cases fs)
      show ?thesis
      proof (cases "pages m f")
        case None
        with Some fs run show ?thesis unfolding eq by simp
      next
        case (Some pg)
        with \<open>l2_unused_pt (cpu m) = Some fs\<close> fs run have "?P f s" unfolding eq by auto
        then show ?thesis by blast
      qed
    qed
    then obtain f s where "?P f s" by blast
    then show ?thesis
    proof (elim disjE conjE exE)
      assume "m' = m" "ret \<noteq> 0"
      then show ?thesis using tbl by simp
    next
      fix pg
      assume r: "ret = 0"
        and t: "pgds m' pgd = Some (tbl(?i := l1_coarse_descriptor f s (KVM_SPECIAL_DOMAIN k)))"
        and p: "pages m' f = Some pg" "entries pg (s * L2_TABLE_ENTRIES + l2_index gva) = val"
      show ?thesis
        unfolding val'
        apply (rule exI [of _ "tbl(?i := l1_coarse_descriptor f s (KVM_SPECIAL_DOMAIN k))"])
        apply (simp add: t l1_coarse_descriptor_type l1_domain_written fault)
        apply (intro impI exI [of _ f] exI [of _ s] exI [of _ pg])
        apply (simp add: p)
        done
    qed
  next
    case coarse
    define l1_new where "l1_new = (tbl ?i AND NOT L1_DOMAIN_MASK)
                               OR push_bit L1_DOMAIN_SHIFT (ucast (KVM_SPECIAL_DOMAIN k AND 0xf))"
    have new: "l1_new AND L1_TYPE_MASK = L1_TYPE_COARSE"
      "l1_domain l1_new = ucast (KVM_SPECIAL_DOMAIN k AND 0xf)"
      "l1_frame l1_new = l1_frame (tbl ?i)" "l1_slot l1_new = l1_slot (tbl ?i)"
      using coarse(2)
      by (simp_all add: l1_new_def l1_update_domain_type l1_domain_written
            l1_update_domain_frame l1_update_domain_slot)
    show ?thesis
      using run coarse(1) new tbl
      unfolding val' uu_map_gva_to_pfn_coarse [OF tbl coarse(2) sel l1_new_def refl refl refl] val_def [symmetric]
      by (auto simp add: EFAULT_def split: option.splits if_splits)
  next
    case other
    then have "m' = m" "ret \<noteq> 0"
      using run uu_map_gva_to_pfn_other [OF tbl other] by (auto simp add: EFAULT_def)
    then show ?thesis using tbl by simp
  qed
qed

text \<open>
  C8: an install call for an address in the 1 MiB region of the shared page or of the
  current host exception-vector base writes the level-1 entry with the special domain
  (whatever domain the caller passed), and the level-2 descriptor it writes carries the
  access permissions converted for the caller's domain: for a domain that the register
  marks No-Access, AP (bits 5 and 4) 0 and APX (bit 9) 0, so that no access is permitted;
  for a Manager domain, AP 3 and APX 0, so that every access is permitted; for any other
  setting of the domain (Client), and for a caller that passes the special domain itself,
  the low two bits and the \<^verbatim>\<open>apx\<close> that \<^verbatim>\<open>calc_aps\<close> gave for the caller's access
  permissions. Bits 6 to 8 of the descriptor are clear, and for a caller's domain other
  than the special one the whole descriptor is the one built from the result of
  \<^verbatim>\<open>dom_to_ap\<close>.
\<close>

theorem install_special_region:
  assumes reg: "in_special_region k (cpu m) gva"
    and tbl: "pgds m pgd = Some tbl"
    and run: "map_gva_to_pfn k pgd gva pfn domain priv_ap user_ap exec m = Ret (ret, m')"
  shows "\<exists>tbl'. pgds m' pgd = Some tbl' \<and>
           (tbl' (unat (drop_bit 20 gva)) \<noteq> tbl (unat (drop_bit 20 gva)) \<or> ret = 0 \<longrightarrow>
              tbl' (unat (drop_bit 20 gva)) AND L1_TYPE_MASK = L1_TYPE_COARSE \<and>
              l1_domain (tbl' (unat (drop_bit 20 gva))) = ucast (KVM_SPECIAL_DOMAIN k AND 0xf)) \<and>
           (ret = 0 \<longrightarrow>
              (\<exists>f s pg.
                 (if tbl (unat (drop_bit 20 gva)) AND L1_TYPE_MASK = L1_TYPE_FAULT
                  then tbl' (unat (drop_bit 20 gva)) = l1_coarse_descriptor f s (KVM_SPECIAL_DOMAIN k)
                  else f = l1_frame (tbl' (unat (drop_bit 20 gva))) \<and>
                       s = l1_slot (tbl' (unat (drop_bit 20 gva)))) \<and>
                 pages m' f = Some pg \<and>
                 drop_bit 4 (entries pg (s * L2_TABLE_ENTRIES + l2_index gva)) AND 0x3 =
                   (if domain = KVM_SPECIAL_DOMAIN k
                    then ucast (fst (calc_aps k priv_ap user_ap) AND 0x3)
                    else if VCPU_DOMAIN_VAL k (cpu m) domain = DOMAIN_NOACCESS then 0
                    else if VCPU_DOMAIN_VAL k (cpu m) domain = DOMAIN_MANAGER then 3
                    else ucast (fst (calc_aps k priv_ap user_ap) AND 0x3)) \<and>
                 drop_bit 9 (entries pg (s * L2_TABLE_ENTRIES + l2_index gva)) AND 0x1 =
                   (if domain = KVM_SPECIAL_DOMAIN k
                    then ucast (snd (calc_aps k priv_ap user_ap) AND 0x1)
                    else if VCPU_DOMAIN_VAL k (cpu m) domain = DOMAIN_NOACCESS then 0
                    else if VCPU_DOMAIN_VAL k (cpu m) domain = DOMAIN_MANAGER then 0
                    else ucast (snd (calc_aps k priv_ap user_ap) AND 0x1)) \<and>
                 drop_bit 6 (entries pg (s * L2_TABLE_ENTRIES + l2_index gva)) AND 0x7 = 0 \<and>
                 (domain \<noteq> KVM_SPECIAL_DOMAIN k \<longrightarrow>
                    entries pg (s * L2_TABLE_ENTRIES + l2_index gva) =
                      l2_descriptor pfn
                        (fst (dom_to_ap k (cpu m) domain (install_ap k priv_ap user_ap)
                                (snd (calc_aps k priv_ap user_ap))))
                        (snd (dom_to_ap k (cpu m) domain (install_ap k priv_ap user_ap)
                                (snd (calc_aps k priv_ap user_ap))))
                        exec (install_nG k gva))))"
proof (cases "map_gva_to_pfn k pgd gva pfn domain priv_ap user_ap exec m = Ret (- EINVAL, m)")
  case True
  then have "m' = m" "ret \<noteq> 0" using run by (simp_all add: EINVAL_def)
  then show ?thesis using tbl by simp
next
  case False
  let ?i = "unat (drop_bit 20 gva)"
  let ?a = "install_ap k priv_ap user_ap"
  let ?x = "snd (calc_aps k priv_ap user_ap)"
  define a1 where "a1 = (if domain = KVM_SPECIAL_DOMAIN k then ?a
                         else fst (dom_to_ap k (cpu m) domain ?a ?x))"
  define x1 where "x1 = (if domain = KVM_SPECIAL_DOMAIN k then ?x
                         else snd (dom_to_ap k (cpu m) domain ?a ?x))"
  have "uu_map_gva_to_pfn k pgd gva pfn domain ?a ?x exec m = Ret (ret, m')"
    using False run by (simp add: map_gva_to_pfn_def split: if_splits)
  from uu_map_gva_to_pfn_special_region [OF reg tbl this]
  obtain tbl' where t: "pgds m' pgd = Some tbl'"
    and l1: "tbl' ?i \<noteq> tbl ?i \<or> ret = 0 \<longrightarrow>
              tbl' ?i AND L1_TYPE_MASK = L1_TYPE_COARSE \<and>
              l1_domain (tbl' ?i) = ucast (KVM_SPECIAL_DOMAIN k AND 0xf)"
    and l2: "ret = 0 \<longrightarrow>
              (\<exists>f s pg.
                 (if tbl ?i AND L1_TYPE_MASK = L1_TYPE_FAULT
                  then tbl' ?i = l1_coarse_descriptor f s (KVM_SPECIAL_DOMAIN k)
                  else f = l1_frame (tbl' ?i) \<and> s = l1_slot (tbl' ?i)) \<and>
                 pages m' f = Some pg \<and>
                 entries pg (s * L2_TABLE_ENTRIES + l2_index gva) =
                   l2_descriptor pfn a1 x1 exec (install_nG k gva))"
    unfolding a1_def x1_def by blast
  have ap: "(ucast (a1 AND 0x3) :: u32) =
              (if domain = KVM_SPECIAL_DOMAIN k
               then ucast (fst (calc_aps k priv_ap user_ap) AND 0x3)
               else if VCPU_DOMAIN_VAL k (cpu m) domain = DOMAIN_NOACCESS then 0
               else if VCPU_DOMAIN_VAL k (cpu m) domain = DOMAIN_MANAGER then 3
               else ucast (fst (calc_aps k priv_ap user_ap) AND 0x3))"
    by (simp add: a1_def dom_to_ap_def install_ap_low)
  have apx: "(ucast (x1 AND 0x1) :: u32) =
              (if domain = KVM_SPECIAL_DOMAIN k
               then ucast (snd (calc_aps k priv_ap user_ap) AND 0x1)
               else if VCPU_DOMAIN_VAL k (cpu m) domain = DOMAIN_NOACCESS then 0
               else if VCPU_DOMAIN_VAL k (cpu m) domain = DOMAIN_MANAGER then 0
               else ucast (snd (calc_aps k priv_ap user_ap) AND 0x1))"
    by (simp add: x1_def dom_to_ap_def)
  have full: "domain \<noteq> KVM_SPECIAL_DOMAIN k \<Longrightarrow>
      l2_descriptor pfn a1 x1 exec (install_nG k gva) =
      l2_descriptor pfn (fst (dom_to_ap k (cpu m) domain ?a ?x))
        (snd (dom_to_ap k (cpu m) domain ?a ?x)) exec (install_nG k gva)"
    by (simp add: a1_def x1_def)
  show ?thesis
  proof (intro exI conjI)
    show "pgds m' pgd = Some tbl'" by (rule t)
    show "tbl' ?i \<noteq> tbl ?i \<or> ret = 0 \<longrightarrow>
              tbl' ?i AND L1_TYPE_MASK = L1_TYPE_COARSE \<and>
              l1_domain (tbl' ?i) = ucast (KVM_SPECIAL_DOMAIN k AND 0xf)" by (rule l1)
    show "ret = 0 \<longrightarrow>
              (\<exists>f s pg.
                 (if tbl ?i AND L1_TYPE_MASK = L1_TYPE_FAULT
                  then tbl' ?i = l1_coarse_descriptor f s (KVM_SPECIAL_DOMAIN k)
                  else f = l1_frame (tbl' ?i) \<and> s = l1_slot (tbl' ?i)) \<and>
                 pages m' f = Some pg \<and>
                 drop_bit 4 (entries pg (s * L2_TABLE_ENTRIES + l2_index gva)) AND 0x3 =
                   (if domain = KVM_SPECIAL_DOMAIN k
                    then ucast (fst (calc_aps k priv_ap user_ap) AND 0x3)
                    else if VCPU_DOMAIN_VAL k (cpu m) domain = DOMAIN_NOACCESS then 0
                    else if VCPU_DOMAIN_VAL k (cpu m) domain = DOMAIN_MANAGER then 3
                    else ucast (fst (calc_aps k priv_ap user_ap) AND 0x3)) \<and>
                 drop_bit 9 (entries pg (s * L2_TABLE_ENTRIES + l2_index gva)) AND 0x1 =
                   (if domain = KVM_SPECIAL_DOMAIN k
                    then ucast (snd (calc_aps k priv_ap user_ap) AND 0x1)
                    else if VCPU_DOMAIN_VAL k (cpu m) domain = DOMAIN_NOACCESS then 0
                    else if VCPU_DOMAIN_VAL k (cpu m) domain = DOMAIN_MANAGER then 0
                    else ucast (snd (calc_aps k priv_ap user_ap) AND 0x1)) \<and>
                 drop_bit 6 (entries pg (s * L2_TABLE_ENTRIES + l2_index gva)) AND 0x7 = 0 \<and>
                 (domain \<noteq> KVM_SPECIAL_DOMAIN k \<longrightarrow>
                    entries pg (s * L2_TABLE_ENTRIES + l2_index gva) =
                      l2_descriptor pfn
                        (fst (dom_to_ap k (cpu m) domain ?a ?x))
                        (snd (dom_to_ap k (cpu m) domain ?a ?x))
                        exec (install_nG k gva)))"
    proof
      assume "ret = 0"
      with l2 obtain f s pg where
        loc: "if tbl ?i AND L1_TYPE_MASK = L1_TYPE_FAULT
              then tbl' ?i = l1_coarse_descriptor f s (KVM_SPECIAL_DOMAIN k)
              else f = l1_frame (tbl' ?i) \<and> s = l1_slot (tbl' ?i)"
        and pg: "pages m' f = Some pg"
        and e: "entries pg (s * L2_TABLE_ENTRIES + l2_index gva) =
                  l2_descriptor pfn a1 x1 exec (install_nG k gva)"
        by blast
      show "\<exists>f s pg.
                 (if tbl ?i AND L1_TYPE_MASK = L1_TYPE_FAULT
                  then tbl' ?i = l1_coarse_descriptor f s (KVM_SPECIAL_DOMAIN k)
                  else f = l1_frame (tbl' ?i) \<and> s = l1_slot (tbl' ?i)) \<and>
                 pages m' f = Some pg \<and>
                 drop_bit 4 (entries pg (s * L2_TABLE_ENTRIES + l2_index gva)) AND 0x3 =
                   (if domain = KVM_SPECIAL_DOMAIN k
                    then ucast (fst (calc_aps k priv_ap user_ap) AND 0x3)
                    else if VCPU_DOMAIN_VAL k (cpu m) domain = DOMAIN_NOACCESS then 0
                    else if VCPU_DOMAIN_VAL k (cpu m) domain = DOMAIN_MANAGER then 3
                    else ucast (fst (calc_aps k priv_ap user_ap) AND 0x3)) \<and>
                 drop_bit 9 (entries pg (s * L2_TABLE_ENTRIES + l2_index gva)) AND 0x1 =
                   (if domain = KVM_SPECIAL_DOMAIN k
                    then ucast (snd (calc_aps k priv_ap user_ap) AND 0x1)
                    else if VCPU_DOMAIN_VAL k (cpu m) domain = DOMAIN_NOACCESS then 0
                    else if VCPU_DOMAIN_VAL k (cpu m) domain = DOMAIN_MANAGER then 0
                    else ucast (snd (calc_aps k priv_ap user_ap) AND 0x1)) \<and>
                 drop_bit 6 (entries pg (s * L2_TABLE_ENTRIES + l2_index gva)) AND 0x7 = 0 \<and>
                 (domain \<noteq> KVM_SPECIAL_DOMAIN k \<longrightarrow>
                    entries pg (s * L2_TABLE_ENTRIES + l2_index gva) =
                      l2_descriptor pfn
                        (fst (dom_to_ap k (cpu m) domain ?a ?x))
                        (snd (dom_to_ap k (cpu m) domain ?a ?x))
                        exec (install_nG k gva))"
        apply (intro exI [of _ f] exI [of _ s] exI [of _ pg] conjI)
             apply (rule loc)
            apply (rule pg)
           apply (simp only: e l2_descriptor_ap ap)
          apply (simp only: e l2_descriptor_apx apx)
         apply (simp only: e l2_descriptor_tex)
        apply (simp add: e full)
        done
    qed
  qed
qed

text \<open>Three installs at 0x3000, in the section of the low exception vectors, with the
  register marking domain 3 Manager, domain 0 No-Access and domain 1 Client. For the
  Manager domain with the permissions read-only / none (\<^verbatim>\<open>calc_aps\<close> gives 1 and apx 1)
  the descriptor gets AP 3 and APX 0; for the No-Access domain with read-write /
  read-write (\<^verbatim>\<open>calc_aps\<close> gives 3) it gets AP 0; for the Client domain with read-only /
  none it keeps AP 1 and APX 1. The level-1 entry gets domain 15 each time.\<close>

theorem install_special_region_witness:
  "in_special_region example_kernel (cpu example_domains_machine) 0x3000 \<and>
   VCPU_DOMAIN_VAL example_kernel (cpu example_domains_machine) 3 = DOMAIN_MANAGER \<and>
   calc_aps example_kernel KVM_AP_RDONLY KVM_AP_NONE = (1, 1) \<and>
   map_gva_to_pfn example_kernel 0 0x3000 0x300 3 KVM_AP_RDONLY KVM_AP_NONE 0
     example_domains_machine = Ret (0, example_vector_install 3 KVM_AP_RDONLY KVM_AP_NONE) \<and>
   l1_domain (the (pgds (example_vector_install 3 KVM_AP_RDONLY KVM_AP_NONE) 0) 0) = 15 \<and>
   (\<exists>f s pg. pages (example_vector_install 3 KVM_AP_RDONLY KVM_AP_NONE) f = Some pg \<and>
      drop_bit 4 (entries pg (s * L2_TABLE_ENTRIES + l2_index 0x3000)) AND 0x3 = 3 \<and>
      drop_bit 9 (entries pg (s * L2_TABLE_ENTRIES + l2_index 0x3000)) AND 0x1 = 0) \<and>
   VCPU_DOMAIN_VAL example_kernel (cpu example_domains_machine) 0 = DOMAIN_NOACCESS \<and>
   calc_aps example_kernel KVM_AP_RDWRITE KVM_AP_RDWRITE = (3, 0) \<and>
   map_gva_to_pfn example_kernel 0 0x3000 0x300 0 KVM_AP_RDWRITE KVM_AP_RDWRITE 0
     example_domains_machine = Ret (0, example_vector_install 0 KVM_AP_RDWRITE KVM_AP_RDWRITE) \<and>
   l1_domain (the (pgds (example_vector_install 0 KVM_AP_RDWRITE KVM_AP_RDWRITE) 0) 0) = 15 \<and>
   (\<exists>f s pg. pages (example_vector_install 0 KVM_AP_RDWRITE KVM_AP_RDWRITE) f = Some pg \<and>
      drop_bit 4 (entries pg (s * L2_TABLE_ENTRIES + l2_index 0x3000)) AND 0x3 = 0 \<and>
      drop_bit 9 (entries pg (s * L2_TABLE_ENTRIES + l2_index 0x3000)) AND 0x1 = 0) \<and>
   VCPU_DOMAIN_VAL example_kernel (cpu example_domains_machine) 1 = DOMAIN_CLIENT \<and>
   map_gva_to_pfn example_kernel 0 0x3000 0x300 1 KVM_AP_RDONLY KVM_AP_NONE 0
     example_domains_machine = Ret (0, example_vector_install 1 KVM_AP_RDONLY KVM_AP_NONE) \<and>
   l1_domain (the (pgds (example_vector_install 1 KVM_AP_RDONLY KVM_AP_NONE) 0) 0) = 15 \<and>
   (\<exists>f s pg. pages (example_vector_install 1 KVM_AP_RDONLY KVM_AP_NONE) f = Some pg \<and>
      drop_bit 4 (entries pg (s * L2_TABLE_ENTRIES + l2_index 0x3000)) AND 0x3 = 1 \<and>
      drop_bit 9 (entries pg (s * L2_TABLE_ENTRIES + l2_index 0x3000)) AND 0x1 = 1)"
proof -
  let ?M = example_domains_machine
  have reg: "in_special_region example_kernel (cpu ?M) 0x3000" by code_simp
  have "pgds ?M 0 \<noteq> None" by code_simp
  then have tbl: "pgds ?M 0 = Some (the (pgds ?M 0))" by simp
  have s: "KVM_SPECIAL_DOMAIN example_kernel = 15" by (simp add: example_kernel_def)
  have c: "calc_aps example_kernel KVM_AP_RDONLY KVM_AP_NONE = (1, 1)"
    "calc_aps example_kernel KVM_AP_RDWRITE KVM_AP_RDWRITE = (3, 0)"
    by (simp_all add: example_kernel_def)
  have d: "VCPU_DOMAIN_VAL example_kernel (cpu ?M) 3 = DOMAIN_MANAGER"
    "VCPU_DOMAIN_VAL example_kernel (cpu ?M) 0 = DOMAIN_NOACCESS"
    "VCPU_DOMAIN_VAL example_kernel (cpu ?M) 1 = DOMAIN_CLIENT"
    by code_simp+
  have v: "DOMAIN_MANAGER \<noteq> DOMAIN_NOACCESS" "DOMAIN_CLIENT \<noteq> DOMAIN_NOACCESS"
    "DOMAIN_CLIENT \<noteq> DOMAIN_MANAGER"
    by (simp_all add: DOMAIN_MANAGER_def DOMAIN_NOACCESS_def DOMAIN_CLIENT_def)
  have "case map_gva_to_pfn example_kernel 0 0x3000 0x300 3 KVM_AP_RDONLY KVM_AP_NONE 0 ?M of
          Ret (r, m) \<Rightarrow> r = 0 | Bug \<Rightarrow> False | Invalid_access \<Rightarrow> False"
    by code_simp
  then have run3: "map_gva_to_pfn example_kernel 0 0x3000 0x300 3 KVM_AP_RDONLY KVM_AP_NONE 0 ?M =
      Ret (0, example_vector_install 3 KVM_AP_RDONLY KVM_AP_NONE)"
    by (auto simp add: example_vector_install_def split: outcome.splits)
  have "case map_gva_to_pfn example_kernel 0 0x3000 0x300 0 KVM_AP_RDWRITE KVM_AP_RDWRITE 0 ?M of
          Ret (r, m) \<Rightarrow> r = 0 | Bug \<Rightarrow> False | Invalid_access \<Rightarrow> False"
    by code_simp
  then have run0: "map_gva_to_pfn example_kernel 0 0x3000 0x300 0 KVM_AP_RDWRITE KVM_AP_RDWRITE 0 ?M =
      Ret (0, example_vector_install 0 KVM_AP_RDWRITE KVM_AP_RDWRITE)"
    by (auto simp add: example_vector_install_def split: outcome.splits)
  have "case map_gva_to_pfn example_kernel 0 0x3000 0x300 1 KVM_AP_RDONLY KVM_AP_NONE 0 ?M of
          Ret (r, m) \<Rightarrow> r = 0 | Bug \<Rightarrow> False | Invalid_access \<Rightarrow> False"
    by code_simp
  then have run1: "map_gva_to_pfn example_kernel 0 0x3000 0x300 1 KVM_AP_RDONLY KVM_AP_NONE 0 ?M =
      Ret (0, example_vector_install 1 KVM_AP_RDONLY KVM_AP_NONE)"
    by (auto simp add: example_vector_install_def split: outcome.splits)
  have m3: "l1_domain (the (pgds (example_vector_install 3 KVM_AP_RDONLY KVM_AP_NONE) 0) 0) = 15 \<and>
     (\<exists>f s pg. pages (example_vector_install 3 KVM_AP_RDONLY KVM_AP_NONE) f = Some pg \<and>
      drop_bit 4 (entries pg (s * L2_TABLE_ENTRIES + l2_index 0x3000)) AND 0x3 = 3 \<and>
      drop_bit 9 (entries pg (s * L2_TABLE_ENTRIES + l2_index 0x3000)) AND 0x1 = 0)"
    using install_special_region [OF reg tbl run3]
    by (auto simp add: d v s c)
  have m0: "l1_domain (the (pgds (example_vector_install 0 KVM_AP_RDWRITE KVM_AP_RDWRITE) 0) 0) = 15 \<and>
     (\<exists>f s pg. pages (example_vector_install 0 KVM_AP_RDWRITE KVM_AP_RDWRITE) f = Some pg \<and>
      drop_bit 4 (entries pg (s * L2_TABLE_ENTRIES + l2_index 0x3000)) AND 0x3 = 0 \<and>
      drop_bit 9 (entries pg (s * L2_TABLE_ENTRIES + l2_index 0x3000)) AND 0x1 = 0)"
    using install_special_region [OF reg tbl run0]
    by (auto simp add: d v s c)
  have m1: "l1_domain (the (pgds (example_vector_install 1 KVM_AP_RDONLY KVM_AP_NONE) 0) 0) = 15 \<and>
     (\<exists>f s pg. pages (example_vector_install 1 KVM_AP_RDONLY KVM_AP_NONE) f = Some pg \<and>
      drop_bit 4 (entries pg (s * L2_TABLE_ENTRIES + l2_index 0x3000)) AND 0x3 = 1 \<and>
      drop_bit 9 (entries pg (s * L2_TABLE_ENTRIES + l2_index 0x3000)) AND 0x1 = 1)"
    using install_special_region [OF reg tbl run1]
    by (auto simp add: d v s c)
  show ?thesis
    using reg d c run3 run0 run1 m3 m0 m1 by blast
qed

subsection \<open>The count of sub-tables in use\<close>

lemma slots_of_iff: "t \<in> slots_of R f \<longleftrightarrow> (\<exists>key. R key = Some (f, t))"
  unfolding slots_of_def by (rule mem_Collect_eq)

lemma slots_of_finite:
  assumes "\<forall>key f s. R key = Some (f, s) \<longrightarrow> cnt f \<noteq> None \<and> s < (4::nat)"
  shows "finite (slots_of R f)"
proof -
  have "slots_of R f \<subseteq> {..<4}" using assms slots_of_iff by blast
  then show ?thesis by (rule finite_subset) simp
qed

lemma slots_of_add:
  assumes "R key = None"
  shows "slots_of (R(key \<mapsto> (f, s))) f' = (if f' = f then insert s (slots_of R f) else slots_of R f')"
proof -
  have a: "t \<in> slots_of (R(key \<mapsto> (f, s))) f' \<longleftrightarrow> (f' = f \<and> t = s) \<or> t \<in> slots_of R f'" for t
  proof
    assume "t \<in> slots_of (R(key \<mapsto> (f, s))) f'"
    then obtain key' where k: "(R(key \<mapsto> (f, s))) key' = Some (f', t)"
      using slots_of_iff by blast
    show "(f' = f \<and> t = s) \<or> t \<in> slots_of R f'"
    proof (cases "key' = key")
      case True
      then show ?thesis using k by simp
    next
      case False
      then have "R key' = Some (f', t)" using k by simp
      then show ?thesis using slots_of_iff by blast
    qed
  next
    assume "(f' = f \<and> t = s) \<or> t \<in> slots_of R f'"
    then show "t \<in> slots_of (R(key \<mapsto> (f, s))) f'"
    proof
      assume "f' = f \<and> t = s"
      then have "(R(key \<mapsto> (f, s))) key = Some (f', t)" by simp
      then show ?thesis using slots_of_iff by blast
    next
      assume "t \<in> slots_of R f'"
      then obtain key' where k: "R key' = Some (f', t)" using slots_of_iff by blast
      then have "key' \<noteq> key" using assms by auto
      then have "(R(key \<mapsto> (f, s))) key' = Some (f', t)" using k by simp
      then show ?thesis using slots_of_iff by blast
    qed
  qed
  show ?thesis
    by (rule set_eqI) (simp add: a)
qed

lemma slots_of_del:
  assumes inj: "\<forall>key key' b. R key = Some b \<and> R key' = Some b \<longrightarrow> key = key'"
    and key: "R key = Some (f, s)"
  shows "slots_of (R(key := None)) f' = (if f' = f then slots_of R f - {s} else slots_of R f')"
proof -
  have a: "t \<in> slots_of (R(key := None)) f' \<longleftrightarrow> t \<in> slots_of R f' \<and> \<not> (f' = f \<and> t = s)" for t
  proof
    assume "t \<in> slots_of (R(key := None)) f'"
    then obtain key' where k: "(R(key := None)) key' = Some (f', t)"
      using slots_of_iff by blast
    then have ne: "key' \<noteq> key" by (auto split: if_splits)
    then have r: "R key' = Some (f', t)" using k by simp
    have "\<not> (f' = f \<and> t = s)"
    proof
      assume "f' = f \<and> t = s"
      then have "R key' = Some (f, s)" using r by simp
      then have "key' = key" using inj key by blast
      then show False using ne by simp
    qed
    then show "t \<in> slots_of R f' \<and> \<not> (f' = f \<and> t = s)"
      using r slots_of_iff by blast
  next
    assume b: "t \<in> slots_of R f' \<and> \<not> (f' = f \<and> t = s)"
    then obtain key' where k: "R key' = Some (f', t)" using slots_of_iff by blast
    then have "key' \<noteq> key" using key b by auto
    then have "(R(key := None)) key' = Some (f', t)" using k by simp
    then show "t \<in> slots_of (R(key := None)) f'" using slots_of_iff by blast
  qed
  show ?thesis
    by (rule set_eqI) (auto simp add: a)
qed

text \<open>The steps that change the references: a new reference to the next unused slot of the
  frame in use, or to the first slot of a new frame; and the removal of a reference, with
  the frame kept or freed.\<close>

lemma abs_inv_add_existing:
  assumes inv: "abs_inv R cnt (Some (f, s)) F" and c: "cnt f = Some c" and k: "R key = None"
  shows "abs_inv (R(key \<mapsto> (f, s))) (cnt(f \<mapsto> Suc c))
           (if Suc s = 4 then None else Some (f, Suc s)) F"
proof -
  from inv have live: "\<And>key f s. R key = Some (f, s) \<Longrightarrow> cnt f \<noteq> None \<and> s < 4"
    and inj: "\<And>key key' b. R key = Some b \<Longrightarrow> R key' = Some b \<Longrightarrow> key = key'"
    and cnt: "\<And>f c. cnt f = Some c \<Longrightarrow> c = card (slots_of R f)"
    and s4: "s < 4" and unused: "\<And>s'. s \<le> s' \<Longrightarrow> s' \<notin> slots_of R f"
    and F: "distinct F" "\<And>f. f \<in> set F \<Longrightarrow> frame_ok f \<and> cnt f = None"
    and ok: "\<And>f. cnt f \<noteq> None \<Longrightarrow> frame_ok f"
    using c unfolding abs_inv_def by blast+
  have fin: "finite (slots_of R f)"
    using live by (intro slots_of_finite [where cnt = cnt]) blast
  have new: "s \<notin> slots_of R f" using unused by simp
  have sl: "\<And>f'. slots_of (R(key \<mapsto> (f, s))) f' =
      (if f' = f then insert s (slots_of R f) else slots_of R f')"
    using k by (rule slots_of_add [where R = R and key = key])
  show ?thesis
    unfolding abs_inv_def
  proof (intro conjI allI impI ballI)
    fix key' f' s' assume "(R(key \<mapsto> (f, s))) key' = Some (f', s')"
    then show "(cnt(f \<mapsto> Suc c)) f' \<noteq> None" "s' < 4"
      using live s4 by (auto split: if_splits)
  next
    fix key1 key2 b
    assume a: "(R(key \<mapsto> (f, s))) key1 = Some b \<and> (R(key \<mapsto> (f, s))) key2 = Some b"
    have nr: "\<And>key'. R key' \<noteq> Some (f, s)" using new slots_of_iff by blast
    show "key1 = key2"
      using a inj nr by (auto split: if_splits)
  next
    fix f' c' assume "(cnt(f \<mapsto> Suc c)) f' = Some c'"
    then show "c' = card (slots_of (R(key \<mapsto> (f, s))) f')"
      using cnt c fin new by (auto simp add: sl split: if_splits)
  next
    fix f' s' assume u: "(if Suc s = 4 then None else Some (f, Suc s)) = Some (f', s')"
    then show "s' < 4" using s4 by (auto split: if_splits)
    fix t assume "(cnt(f \<mapsto> Suc c)) f' \<noteq> None" "s' \<le> t"
    then show "t \<notin> slots_of (R(key \<mapsto> (f, s))) f'"
      using u unused [of t] by (auto simp add: sl split: if_splits)
  next
    show "distinct F" by (rule F)
  next
    fix f' assume "f' \<in> set F"
    then show "frame_ok f'" "(cnt(f \<mapsto> Suc c)) f' = None"
      using F(2) c by auto
  next
    fix f' assume "(cnt(f \<mapsto> Suc c)) f' \<noteq> None"
    then show "frame_ok f'" using ok c by (auto split: if_splits)
  qed
qed

lemma abs_inv_add_fresh:
  assumes inv: "abs_inv R cnt None (f # fs)" and k: "R key = None"
  shows "abs_inv (R(key \<mapsto> (f, 0))) (cnt(f \<mapsto> Suc 0)) (Some (f, Suc 0)) fs"
proof -
  from inv have live: "\<And>key f s. R key = Some (f, s) \<Longrightarrow> cnt f \<noteq> None \<and> s < 4"
    and inj: "\<And>key key' b. R key = Some b \<Longrightarrow> R key' = Some b \<Longrightarrow> key = key'"
    and cnt: "\<And>f c. cnt f = Some c \<Longrightarrow> c = card (slots_of R f)"
    and F: "distinct (f # fs)" "\<And>g. g \<in> set (f # fs) \<Longrightarrow> frame_ok g \<and> cnt g = None"
    and ok: "\<And>f. cnt f \<noteq> None \<Longrightarrow> frame_ok f"
    unfolding abs_inv_def by blast+
  have dead: "cnt f = None" and fok: "frame_ok f" using F(2) [of f] by simp_all
  have none: "slots_of R f = {}"
  proof (rule ccontr)
    assume "slots_of R f \<noteq> {}"
    then obtain t key' where "R key' = Some (f, t)" using slots_of_iff by blast
    then show False using live dead by blast
  qed
  have sl: "\<And>f'. slots_of (R(key \<mapsto> (f, 0))) f' =
      (if f' = f then insert 0 (slots_of R f) else slots_of R f')"
    using k by (rule slots_of_add [where R = R and key = key])
  show ?thesis
    unfolding abs_inv_def
  proof (intro conjI allI impI ballI)
    fix key' f' s' assume "(R(key \<mapsto> (f, 0))) key' = Some (f', s')"
    then show "(cnt(f \<mapsto> Suc 0)) f' \<noteq> None" "s' < 4"
      using live by (auto split: if_splits)
  next
    fix key1 key2 b
    assume a: "(R(key \<mapsto> (f, 0))) key1 = Some b \<and> (R(key \<mapsto> (f, 0))) key2 = Some b"
    have nr: "\<And>key'. R key' \<noteq> Some (f, 0)" using none slots_of_iff by blast
    show "key1 = key2"
      using a inj nr by (auto split: if_splits)
  next
    fix f' c' assume "(cnt(f \<mapsto> Suc 0)) f' = Some c'"
    then show "c' = card (slots_of (R(key \<mapsto> (f, 0))) f')"
      using cnt none by (auto simp add: sl split: if_splits)
  next
    fix f' s' assume u: "Some (f, Suc 0) = Some (f', s')"
    then show "s' < 4" by auto
    fix t assume "(cnt(f \<mapsto> Suc 0)) f' \<noteq> None" "s' \<le> t"
    moreover have "slots_of (R(key \<mapsto> (f, 0))) f = {0}" using sl [of f] none by simp
    ultimately show "t \<notin> slots_of (R(key \<mapsto> (f, 0))) f'"
      using u by auto
  next
    show "distinct fs" using F(1) by simp
  next
    fix f' assume "f' \<in> set fs"
    then show "frame_ok f'" "(cnt(f \<mapsto> Suc 0)) f' = None"
      using F by auto
  next
    fix f' assume "(cnt(f \<mapsto> Suc 0)) f' \<noteq> None"
    then show "frame_ok f'" using ok fok by (auto split: if_splits)
  qed
qed

lemma abs_inv_del_keep:
  assumes inv: "abs_inv R cnt U F" and k: "R key = Some (f, s)"
    and c: "cnt f = Some c" "c - 1 \<noteq> 0"
  shows "abs_inv (R(key := None)) (cnt(f \<mapsto> c - 1)) U F"
proof -
  from inv have live: "\<And>key f s. R key = Some (f, s) \<Longrightarrow> cnt f \<noteq> None \<and> s < 4"
    and inj: "\<forall>key key' b. R key = Some b \<and> R key' = Some b \<longrightarrow> key = key'"
    and cnt: "\<And>f c. cnt f = Some c \<Longrightarrow> c = card (slots_of R f)"
    and unused: "\<And>f s s'. U = Some (f, s) \<Longrightarrow> s < 4 \<and> (cnt f \<noteq> None \<longrightarrow> s \<le> s' \<longrightarrow> s' \<notin> slots_of R f)"
    and F: "distinct F" "\<And>f. f \<in> set F \<Longrightarrow> frame_ok f \<and> cnt f = None"
    and ok: "\<And>f. cnt f \<noteq> None \<Longrightarrow> frame_ok f"
    unfolding abs_inv_def by blast+
  have fin: "finite (slots_of R f)"
    using live by (intro slots_of_finite [where cnt = cnt]) blast
  have mem: "s \<in> slots_of R f" using k slots_of_iff by blast
  have sl: "\<And>f'. slots_of (R(key := None)) f' =
      (if f' = f then slots_of R f - {s} else slots_of R f')"
    using inj k by (rule slots_of_del)
  show ?thesis
    unfolding abs_inv_def
  proof (intro conjI allI impI ballI)
    fix key' f' s' assume "(R(key := None)) key' = Some (f', s')"
    then show "(cnt(f \<mapsto> c - 1)) f' \<noteq> None" "s' < 4"
      using live by (auto split: if_splits)
  next
    fix key1 key2 b
    assume "(R(key := None)) key1 = Some b \<and> (R(key := None)) key2 = Some b"
    then have "R key1 = Some b \<and> R key2 = Some b" by (auto split: if_splits)
    then show "key1 = key2" using inj by blast
  next
    fix f' c' assume "(cnt(f \<mapsto> c - 1)) f' = Some c'"
    then show "c' = card (slots_of (R(key := None)) f')"
      using cnt c(1) fin mem by (auto simp add: sl split: if_splits)
  next
    fix f' s' assume u: "U = Some (f', s')"
    then show "s' < 4" using unused by blast
    fix t assume "(cnt(f \<mapsto> c - 1)) f' \<noteq> None" "s' \<le> t"
    then show "t \<notin> slots_of (R(key := None)) f'"
      using u unused [of f' s' t] c(1) by (auto simp add: sl split: if_splits)
  next
    show "distinct F" by (rule F)
  next
    fix f' assume "f' \<in> set F"
    then show "frame_ok f'" "(cnt(f \<mapsto> c - 1)) f' = None"
      using F(2) c(1) by auto
  next
    fix f' assume "(cnt(f \<mapsto> c - 1)) f' \<noteq> None"
    then show "frame_ok f'" using ok c(1) by (auto split: if_splits)
  qed
qed

lemma abs_inv_del_free:
  assumes inv: "abs_inv R cnt U F" and k: "R key = Some (f, s)"
    and c: "cnt f = Some c" "c - 1 = 0"
  shows "abs_inv (R(key := None)) (cnt(f := None)) U (F @ [f])"
proof -
  from inv have live: "\<And>key f s. R key = Some (f, s) \<Longrightarrow> cnt f \<noteq> None \<and> s < 4"
    and inj: "\<forall>key key' b. R key = Some b \<and> R key' = Some b \<longrightarrow> key = key'"
    and cnt: "\<And>f c. cnt f = Some c \<Longrightarrow> c = card (slots_of R f)"
    and unused: "\<And>f s s'. U = Some (f, s) \<Longrightarrow> s < 4 \<and> (cnt f \<noteq> None \<longrightarrow> s \<le> s' \<longrightarrow> s' \<notin> slots_of R f)"
    and F: "distinct F" "\<And>f. f \<in> set F \<Longrightarrow> frame_ok f \<and> cnt f = None"
    and ok: "\<And>f. cnt f \<noteq> None \<Longrightarrow> frame_ok f"
    unfolding abs_inv_def by blast+
  have fin: "finite (slots_of R f)"
    using live by (intro slots_of_finite [where cnt = cnt]) blast
  have mem: "s \<in> slots_of R f" using k slots_of_iff by blast
  have "card (slots_of R f) \<le> 1" using cnt [OF c(1)] c(2) by simp
  then have one: "slots_of R f = {s}"
    using fin mem by (metis card_le_Suc0_iff_eq One_nat_def equalityI insertI1 singletonD subsetI)
  have sl: "\<And>f'. slots_of (R(key := None)) f' =
      (if f' = f then slots_of R f - {s} else slots_of R f')"
    using inj k by (rule slots_of_del)
  have gone: "\<And>key' t. (R(key := None)) key' \<noteq> Some (f, t)"
  proof
    fix key' t assume "(R(key := None)) key' = Some (f, t)"
    then have "t \<in> slots_of (R(key := None)) f" using slots_of_iff by blast
    then show False using one by (simp add: sl)
  qed
  have nF: "f \<notin> set F" using F(2) c(1) by auto
  show ?thesis
    unfolding abs_inv_def
  proof (intro conjI allI impI ballI)
    fix key' f' s' assume a: "(R(key := None)) key' = Some (f', s')"
    then have "f' \<noteq> f" using gone by blast
    then show "(cnt(f := None)) f' \<noteq> None" "s' < 4"
      using a live by (auto split: if_splits)
  next
    fix key1 key2 b
    assume "(R(key := None)) key1 = Some b \<and> (R(key := None)) key2 = Some b"
    then have "R key1 = Some b \<and> R key2 = Some b" by (auto split: if_splits)
    then show "key1 = key2" using inj by blast
  next
    fix f' c' assume "(cnt(f := None)) f' = Some c'"
    then show "c' = card (slots_of (R(key := None)) f')"
      using cnt by (auto simp add: sl split: if_splits)
  next
    fix f' s' assume u: "U = Some (f', s')"
    then show "s' < 4" using unused by blast
    fix t assume "(cnt(f := None)) f' \<noteq> None" "s' \<le> t"
    then show "t \<notin> slots_of (R(key := None)) f'"
      using u unused [of f' s' t] by (auto simp add: sl split: if_splits)
  next
    show "distinct (F @ [f])" using F(1) nF by simp
  next
    fix f' assume "f' \<in> set (F @ [f])"
    then show "frame_ok f'" "(cnt(f := None)) f' = None"
      using F(2) ok c(1) by auto
  next
    fix f' assume "(cnt(f := None)) f' \<noteq> None"
    then show "frame_ok f'" using ok by (auto split: if_splits)
  qed
qed

lemma abs_inv_unused_None: "abs_inv R cnt U F \<Longrightarrow> abs_inv R cnt None F"
  unfolding abs_inv_def by simp

text \<open>The references of a memory depend on its roots only, and change at one entry when
  one entry of a root is written.\<close>

lemma l1_index_less: "unat (drop_bit 20 (gva :: u32)) < L1_TABLE_ENTRIES"
proof -
  have "unat gva < 2 ^ 32" using unsigned_less [of gva] by simp
  then have "unat gva div 2 ^ 20 < 2 ^ 12" by simp
  moreover have "unat (drop_bit 20 gva) = drop_bit 20 (unat gva)" by (rule unat_drop_bit_eq)
  moreover have "drop_bit 20 (unat gva) = unat gva div 2 ^ 20" by (rule drop_bit_eq_div)
  ultimately show ?thesis by (simp add: L1_TABLE_ENTRIES_def)
qed

lemma l1_ref_pgds: "pgds m' = pgds m \<Longrightarrow> l1_ref m' = l1_ref m"
  by (simp add: l1_ref_def)

lemma l1_ref_update:
  assumes "pgds m pgd = Some tbl"
  shows "l1_ref (m\<lparr>pgds := (pgds m)(pgd \<mapsto> tbl(i := e))\<rparr>) =
           (l1_ref m)((pgd, i) :=
              (if i < L1_TABLE_ENTRIES \<and> e AND L1_TYPE_MASK = L1_TYPE_COARSE
               then Some (l1_frame e, l1_slot e) else None))"
  using assms by (auto simp add: l1_ref_def fun_eq_iff)

lemma l1_ref_coarse:
  assumes "pgds m pgd = Some tbl" and "i < L1_TABLE_ENTRIES"
    and "tbl i AND L1_TYPE_MASK = L1_TYPE_COARSE"
  shows "l1_ref m (pgd, i) = Some (l1_frame (tbl i), l1_slot (tbl i))"
  using assms by (simp add: l1_ref_def)

lemma l1_ref_not_coarse:
  assumes "pgds m pgd = Some tbl" and "tbl i AND L1_TYPE_MASK \<noteq> L1_TYPE_COARSE"
  shows "l1_ref m (pgd, i) = None"
  using assms by (simp add: l1_ref_def)

lemma shadow_inv_cong:
  assumes "shadow_inv m" and "l1_ref m' = l1_ref m"
    and "\<And>f. map_option page_private (pages m' f) = map_option page_private (pages m f)"
    and "l2_unused_pt (cpu m') = l2_unused_pt (cpu m)" and "free_pages m' = free_pages m"
  shows "shadow_inv m'"
proof -
  have "(\<lambda>f. map_option page_private (pages m' f)) = (\<lambda>f. map_option page_private (pages m f))"
    by (rule ext) (rule assms(3))
  then show ?thesis
    using assms(1) unfolding shadow_inv_def by (simp only: assms(2,4,5))
qed

lemma shadow_inv_write_entries:
  assumes "shadow_inv m" and "pages m f = Some pg"
  shows "shadow_inv (m\<lparr>pages := (pages m)(f \<mapsto> pg\<lparr>entries := e\<rparr>)\<rparr>)"
proof (rule shadow_inv_cong [OF assms(1)])
  show "l1_ref (m\<lparr>pages := (pages m)(f \<mapsto> pg\<lparr>entries := e\<rparr>)\<rparr>) = l1_ref m"
    by (rule l1_ref_pgds) simp
  show "map_option page_private (pages (m\<lparr>pages := (pages m)(f \<mapsto> pg\<lparr>entries := e\<rparr>)\<rparr>) g) =
      map_option page_private (pages m g)" for g
    using assms(2) by simp
qed simp_all

lemma shadow_inv_live:
  assumes "shadow_inv m" and "pages m f = Some pg"
  shows "frame_ok f" and "page_private pg = card (slots_of (l1_ref m) f)"
proof -
  let ?cnt = "\<lambda>f. map_option page_private (pages m f)"
  from assms(1) have c: "\<forall>f c. ?cnt f = Some c \<longrightarrow> c = card (slots_of (l1_ref m) f)"
    unfolding shadow_inv_def abs_inv_def by (elim conjE)
  from assms(1) have ok: "\<forall>f. ?cnt f \<noteq> None \<longrightarrow> frame_ok f"
    unfolding shadow_inv_def abs_inv_def by (elim conjE)
  have e: "?cnt f = Some (page_private pg)" using assms(2) by simp
  show "frame_ok f" using ok e by (metis option.distinct(1))
  show "page_private pg = card (slots_of (l1_ref m) f)" using c e by blast
qed

lemma shadow_inv_counts: "shadow_inv m \<Longrightarrow> counts_match m"
  unfolding counts_match_def referenced_slots_def
  by (intro allI impI) (rule shadow_inv_live(2))

lemma shadow_inv_ref_live:
  assumes "shadow_inv m" and "l1_ref m key = Some (f, s)"
  shows "pages m f \<noteq> None"
proof -
  let ?cnt = "\<lambda>f. map_option page_private (pages m f)"
  from assms(1) have "\<forall>key f s. l1_ref m key = Some (f, s) \<longrightarrow> ?cnt f \<noteq> None \<and> s < 4"
    unfolding shadow_inv_def abs_inv_def by (elim conjE)
  then have "?cnt f \<noteq> None" using assms(2) by blast
  then show ?thesis by simp
qed

lemma l1_type_distinct:
  "L1_TYPE_COARSE \<noteq> L1_TYPE_FAULT" "L1_TYPE_FAULT \<noteq> L1_TYPE_COARSE"
  "(0::u32) AND L1_TYPE_MASK \<noteq> L1_TYPE_COARSE"
  by (simp_all add: L1_TYPE_COARSE_def L1_TYPE_FAULT_def)

text \<open>\<^verbatim>\<open>unmap_gva\<close> keeps the invariant.\<close>

lemma unmap_gva_inv:
  assumes inv: "shadow_inv m" and run: "unmap_gva k pgd gva m = Ret (ret, m')"
  shows "shadow_inv m'"
proof (cases "pgds m pgd")
  case None
  then show ?thesis using run by (simp add: unmap_gva_def)
next
  case (Some tbl)
  let ?e = "tbl (unat (drop_bit 20 gva))"
  show ?thesis
  proof (cases "?e AND L1_TYPE_MASK = L1_TYPE_COARSE \<and> ?e AND L1_TYPE_MASK \<noteq> L1_TYPE_FAULT")
    case False
    then have "m' = m" using run Some by (auto simp add: unmap_gva_def Let_def split: if_splits)
    then show ?thesis using inv by simp
  next
    case True
    show ?thesis
    proof (cases "get_l2_base k ?e")
      case (Inl err)
      then have "m' = m" using run Some True by (simp add: unmap_gva_def Let_def l1_type_distinct)
      then show ?thesis using inv by simp
    next
      case (Inr b)
      obtain f s where b: "b = (f, s)" by (cases b)
      have w: "write_l2 (f, s) (l2_index gva) 0 m = Ret m'"
        using run Some True Inr b by (simp add: unmap_gva_def Let_def obind_Ret_iff l1_type_distinct)
      then obtain pg where "pages m f = Some pg"
        and "m' = m\<lparr>pages := (pages m)(f \<mapsto> pg\<lparr>entries := (entries pg)
                   (s * L2_TABLE_ENTRIES + l2_index gva := 0)\<rparr>)\<rparr>"
        by (cases "pages m f") (simp_all add: write_l2_def)
      then show ?thesis using inv shadow_inv_write_entries by simp
    qed
  qed
qed

text \<open>\<^verbatim>\<open>__map_gva_to_pfn\<close> keeps the invariant.\<close>

lemma uu_map_gva_to_pfn_inv:
  assumes inv: "shadow_inv m" and run: "uu_map_gva_to_pfn k pgd gva pfn domain a x xnv m = Ret (ret, m')"
  shows "shadow_inv m'"
proof (cases "pgds m pgd")
  case None
  then show ?thesis using run by (simp add: uu_map_gva_to_pfn_def Let_def split: prod.splits)
next
  case (Some tbl)
  let ?i = "unat (drop_bit 20 gva)"
  obtain a1 x1 d1 where sel: "install_domain k (cpu m) gva domain a x = (a1, x1, d1)"
    by (cases "install_domain k (cpu m) gva domain a x")
  define val where "val = l2_descriptor pfn a1 x1 xnv (install_nG k gva)"
  consider (fault) "tbl ?i AND L1_TYPE_MASK = L1_TYPE_FAULT"
    | (coarse) "tbl ?i AND L1_TYPE_MASK \<noteq> L1_TYPE_FAULT" "tbl ?i AND L1_TYPE_MASK = L1_TYPE_COARSE"
    | (other) "tbl ?i AND L1_TYPE_MASK \<noteq> L1_TYPE_FAULT" "tbl ?i AND L1_TYPE_MASK \<noteq> L1_TYPE_COARSE"
    by blast
  then show ?thesis
  proof cases
    case other
    then have "m' = m" using run uu_map_gva_to_pfn_other [OF Some other] by simp
    then show ?thesis using inv by simp
  next
    case coarse
    define l1_new where "l1_new = (tbl ?i AND NOT L1_DOMAIN_MASK)
                               OR push_bit L1_DOMAIN_SHIFT (ucast (d1 AND 0xf))"
    define m1 where "m1 = m\<lparr>pgds := (pgds m)(pgd \<mapsto> tbl(?i := l1_new))\<rparr>"
    have new: "l1_new AND L1_TYPE_MASK = L1_TYPE_COARSE"
      "l1_frame l1_new = l1_frame (tbl ?i)" "l1_slot l1_new = l1_slot (tbl ?i)"
      using coarse(2)
      by (simp_all add: l1_new_def l1_update_domain_type l1_update_domain_frame l1_update_domain_slot)
    have "l1_ref m1 = (l1_ref m)((pgd, ?i) := l1_ref m (pgd, ?i))"
      unfolding m1_def l1_ref_update [OF Some]
      using new l1_index_less [of gva] l1_ref_coarse [OF Some l1_index_less coarse(2)]
      by simp
    then have ref: "l1_ref m1 = l1_ref m" by simp
    have inv1: "shadow_inv m1"
      using inv ref by (rule shadow_inv_cong) (simp_all add: m1_def)
    have pm: "pages m1 = pages m" by (simp add: m1_def)
    from run have "m' = m1 \<or> (\<exists>f s pg. pages m1 f = Some pg \<and>
        m' = m1\<lparr>pages := (pages m1)(f \<mapsto> pg\<lparr>entries := (entries pg)
                   (s * L2_TABLE_ENTRIES + l2_index gva := val)\<rparr>)\<rparr>)"
      unfolding uu_map_gva_to_pfn_coarse [OF Some coarse(2) sel l1_new_def m1_def refl refl]
        val_def [symmetric] pm
      by (auto split: if_splits option.splits)
    then show ?thesis using inv1 shadow_inv_write_entries by auto
  next
    case fault
    have key: "l1_ref m (pgd, ?i) = None"
      using fault by (intro l1_ref_not_coarse [OF Some]) (simp add: l1_type_distinct)
    note eq = uu_map_gva_to_pfn_fault [OF Some fault sel val_def]
    from inv have ainv: "abs_inv (l1_ref m) (\<lambda>f. map_option page_private (pages m f))
        (l2_unused_pt (cpu m)) (free_pages m)"
      by (simp add: shadow_inv_def)
    show ?thesis
    proof (cases "l2_unused_pt (cpu m)")
      case None
      show ?thesis
      proof (cases "free_pages m")
        case Nil
        with None run have "m' = m" unfolding eq by simp
        then show ?thesis using inv by simp
      next
        case (Cons f fs)
        have fok: "frame_ok f" using ainv Cons unfolding abs_inv_def by simp
        have m': "m' = m\<lparr>cpu := (cpu m)\<lparr>l2_unused_pt := Some (f, Suc 0)\<rparr>,
                      pgds := (pgds m)(pgd \<mapsto> tbl(?i := l1_coarse_descriptor f 0 d1)),
                      pages := (pages m)(f \<mapsto> \<lparr>page_private = Suc 0,
                          entries = (\<lambda>i. 0)(l2_index gva := val)\<rparr>),
                      free_pages := fs\<rparr>"
          using None Cons run unfolding eq by simp
        have "l1_ref m' = l1_ref (m\<lparr>pgds := (pgds m)(pgd \<mapsto> tbl(?i := l1_coarse_descriptor f 0 d1))\<rparr>)"
          by (rule l1_ref_pgds) (simp add: m')
        then have ref: "l1_ref m' = (l1_ref m)((pgd, ?i) \<mapsto> (f, 0))"
          using fok
          by (simp add: l1_ref_update [OF Some] l1_index_less l1_coarse_descriptor_type
                l1_coarse_descriptor_frame l1_coarse_descriptor_slot frame_ok_def)
        have cnt: "(\<lambda>g. map_option page_private (pages m' g)) =
            (\<lambda>g. map_option page_private (pages m g))(f \<mapsto> Suc 0)"
          by (auto simp add: m' fun_eq_iff)
        show ?thesis
          unfolding shadow_inv_def ref cnt
          using abs_inv_add_fresh [OF ainv [unfolded None Cons] key]
          by (simp add: m')
      qed
    next
      case (Some fs)
      obtain f s where fs: "fs = (f, s)" by (cases fs)
      show ?thesis
      proof (cases "pages m f")
        case None
        with Some fs run show ?thesis unfolding eq by simp
      next
        case pg: (Some pg)
        have fok: "frame_ok f" using shadow_inv_live(1) [OF inv pg] .
        have s4: "s < 4" using ainv Some fs unfolding abs_inv_def by simp
        have m': "m' = m\<lparr>cpu := (cpu m)\<lparr>l2_unused_pt := (if Suc s = 4 then None else Some (f, Suc s))\<rparr>,
                      pgds := (pgds m)(pgd \<mapsto> tbl(?i := l1_coarse_descriptor f s d1)),
                      pages := (pages m)(f \<mapsto> pg\<lparr>page_private := Suc (page_private pg),
                          entries := (entries pg)(s * L2_TABLE_ENTRIES + l2_index gva := val)\<rparr>)\<rparr>"
          using Some fs pg run unfolding eq by simp
        have "l1_ref m' = l1_ref (m\<lparr>pgds := (pgds m)(pgd \<mapsto> tbl(?i := l1_coarse_descriptor f s d1))\<rparr>)"
          by (rule l1_ref_pgds) (simp add: m')
        then have ref: "l1_ref m' = (l1_ref m)((pgd, ?i) \<mapsto> (f, s))"
          using fok s4
          by (simp add: l1_ref_update [OF \<open>pgds m pgd = Some tbl\<close>] l1_index_less
                l1_coarse_descriptor_type l1_coarse_descriptor_frame l1_coarse_descriptor_slot
                frame_ok_def)
        have cnt: "(\<lambda>g. map_option page_private (pages m' g)) =
            (\<lambda>g. map_option page_private (pages m g))(f \<mapsto> Suc (page_private pg))"
          by (auto simp add: m' fun_eq_iff)
        have c: "map_option page_private (pages m f) = Some (page_private pg)" using pg by simp
        show ?thesis
          unfolding shadow_inv_def ref cnt
          using abs_inv_add_existing [OF ainv [unfolded Some fs] c key]
          by (simp add: m')
      qed
    qed
  qed
qed

text \<open>\<^verbatim>\<open>free_l2_shadow\<close> when it returns: the frame was live with a count that is not zero,
  and it is freed or its count decremented.\<close>

lemma free_l2_shadow_Ret:
  assumes "free_l2_shadow k e m = Ret m1"
  shows "\<exists>pg rel. pages m (l1_frame e) = Some pg \<and> page_private pg \<noteq> 0 \<and>
           m1 = (if page_private pg - 1 = 0
                 then m\<lparr>released := rel, pages := (pages m)(l1_frame e := None),
                        free_pages := free_pages m @ [l1_frame e]\<rparr>
                 else m\<lparr>released := rel,
                        pages := (pages m)(l1_frame e \<mapsto> pg\<lparr>page_private := page_private pg - 1\<rparr>)\<rparr>)"
proof (cases "pages m (l1_frame e)")
  case None
  then show ?thesis using assms by (simp add: free_l2_shadow_def)
next
  case (Some pg)
  then obtain rel where
    "(if page_private pg = 0 then Bug
      else if page_private pg - 1 = 0 then
                 Ret (m\<lparr>released := rel,
                        pages := (pages m)(l1_frame e := None),
                        free_pages := free_pages m @ [l1_frame e]\<rparr>)
               else
                 Ret (m\<lparr>released := rel,
                        pages := (pages m)(l1_frame e \<mapsto> pg\<lparr>page_private := page_private pg - 1\<rparr>)\<rparr>))
       = Ret m1"
    using assms by (auto simp add: free_l2_shadow_def obind_Ret_iff)
  then show ?thesis using Some by (auto split: if_splits)
qed

text \<open>Dropping the reference of one Coarse level-1 entry, as \<^verbatim>\<open>unmap_gva_section\<close> and each
  step of \<^verbatim>\<open>__free_l1_shadow_children\<close> do, keeps the invariant.\<close>

lemma drop_reference_inv:
  assumes inv: "shadow_inv m" and tbl: "pgds m pgd = Some tbl" and i: "i < L1_TABLE_ENTRIES"
    and coarse: "tbl i AND L1_TYPE_MASK = L1_TYPE_COARSE"
    and free: "free_l2_shadow k (tbl i) m = Ret m1"
  shows "shadow_inv (m1\<lparr>pgds := (pgds m1)(pgd \<mapsto> tbl(i := 0))\<rparr>)"
proof -
  let ?f = "l1_frame (tbl i)" and ?s = "l1_slot (tbl i)"
  let ?m' = "m1\<lparr>pgds := (pgds m1)(pgd \<mapsto> tbl(i := 0))\<rparr>"
  from free_l2_shadow_Ret [OF free] obtain pg rel where pg: "pages m ?f = Some pg"
    and m1: "m1 = (if page_private pg - 1 = 0
                 then m\<lparr>released := rel, pages := (pages m)(?f := None),
                        free_pages := free_pages m @ [?f]\<rparr>
                 else m\<lparr>released := rel,
                        pages := (pages m)(?f \<mapsto> pg\<lparr>page_private := page_private pg - 1\<rparr>)\<rparr>)"
    by blast
  have p1: "pgds m1 = pgds m" using m1 by (simp split: if_splits)
  have key: "l1_ref m (pgd, i) = Some (?f, ?s)" by (rule l1_ref_coarse [OF tbl i coarse])
  have "l1_ref ?m' = l1_ref (m\<lparr>pgds := (pgds m)(pgd \<mapsto> tbl(i := 0))\<rparr>)"
    by (rule l1_ref_pgds) (simp add: p1)
  then have ref: "l1_ref ?m' = (l1_ref m)((pgd, i) := None)"
    by (simp add: l1_ref_update [OF tbl] L1_TYPE_COARSE_def)
  from inv have ainv: "abs_inv (l1_ref m) (\<lambda>f. map_option page_private (pages m f))
      (l2_unused_pt (cpu m)) (free_pages m)"
    by (simp add: shadow_inv_def)
  have c: "map_option page_private (pages m ?f) = Some (page_private pg)" using pg by simp
  show ?thesis
  proof (cases "page_private pg - 1 = 0")
    case True
    have cnt: "(\<lambda>g. map_option page_private (pages ?m' g)) =
        (\<lambda>g. map_option page_private (pages m g))(?f := None)"
      using True by (auto simp add: m1 fun_eq_iff)
    show ?thesis
      unfolding shadow_inv_def ref cnt
      using abs_inv_del_free [OF ainv key c True] True
      by (simp add: m1)
  next
    case False
    have cnt: "(\<lambda>g. map_option page_private (pages ?m' g)) =
        (\<lambda>g. map_option page_private (pages m g))(?f \<mapsto> page_private pg - 1)"
      using False by (auto simp add: m1 fun_eq_iff)
    show ?thesis
      unfolding shadow_inv_def ref cnt
      using abs_inv_del_keep [OF ainv key c False] False
      by (simp add: m1)
  qed
qed

lemma unmap_gva_section_inv:
  assumes inv: "shadow_inv m" and run: "unmap_gva_section k pgd gva m = Ret (ret, m')"
  shows "shadow_inv m'"
proof (cases "pgds m pgd")
  case None
  then show ?thesis using run by (simp add: unmap_gva_section_def)
next
  case (Some tbl)
  let ?i = "unat (drop_bit 20 gva)"
  show ?thesis
  proof (cases "tbl ?i AND L1_TYPE_MASK = L1_TYPE_COARSE")
    case False
    then have "m' = m" using run Some by (auto simp add: unmap_gva_section_def Let_def split: if_splits)
    then show ?thesis using inv by simp
  next
    case True
    then obtain m1 where "free_l2_shadow k (tbl ?i) m = Ret m1"
      and "m' = m1\<lparr>pgds := (pgds m1)(pgd \<mapsto> tbl(?i := 0))\<rparr>"
      using run Some
      by (auto simp add: unmap_gva_section_def Let_def obind_Ret_iff l1_type_distinct)
    then show ?thesis
      using drop_reference_inv [OF inv Some l1_index_less True] by simp
  qed
qed

lemma free_l1_child_inv:
  assumes inv: "shadow_inv m" and i: "i < L1_TABLE_ENTRIES"
    and run: "free_l1_child k pgd i m = Ret m'"
  shows "shadow_inv m'"
proof (cases "pgds m pgd")
  case None
  then show ?thesis using run by (simp add: free_l1_child_def)
next
  case (Some tbl)
  show ?thesis
  proof (cases "tbl i AND L1_TYPE_MASK = L1_TYPE_COARSE")
    case False
    then have "m' = m" using run Some by (auto simp add: free_l1_child_def split: if_splits)
    then show ?thesis using inv by simp
  next
    case True
    then obtain m1 where "free_l2_shadow k (tbl i) m = Ret m1"
      and "m' = m1\<lparr>pgds := (pgds m1)(pgd \<mapsto> tbl(i := 0))\<rparr>"
      using run Some
      by (auto simp add: free_l1_child_def obind_Ret_iff l1_type_distinct)
    then show ?thesis
      using drop_reference_inv [OF inv Some i True] by simp
  qed
qed

text \<open>Loops: a property that every step keeps holds at the end, and what each step
  establishes and no step destroys holds at the end for every element.\<close>

lemma ofold_invariant:
  assumes "\<And>x s s'. x \<in> set xs \<Longrightarrow> P s \<Longrightarrow> f x s = Ret s' \<Longrightarrow> P s'"
    and "P s" and "ofold f xs s = Ret s'"
  shows "P s'"
  using assms
proof (induction xs arbitrary: s)
  case Nil
  then show ?case by simp
next
  case (Cons x xs)
  from Cons.prems(3) obtain s1 where s1: "f x s = Ret s1" "ofold f xs s1 = Ret s'"
    by (auto simp add: obind_Ret_iff)
  have p1: "P s1" using Cons.prems(1) [of x s s1] Cons.prems(2) s1(1) by simp
  show ?case
  proof (rule Cons.IH [OF _ p1 s1(2)])
    fix y t t' assume "y \<in> set xs" "P t" "f y t = Ret t'"
    then show "P t'" using Cons.prems(1) [of y t t'] by simp
  qed
qed

lemma ofold_post:
  assumes est: "\<And>x s s'. f x s = Ret s' \<Longrightarrow> Q x s'"
    and pres: "\<And>x y s s'. f x s = Ret s' \<Longrightarrow> Q y s \<Longrightarrow> Q y s'"
    and run: "ofold f xs s = Ret s'"
  shows "\<forall>x\<in>set xs. Q x s'"
  using run
proof (induction xs arbitrary: s)
  case Nil
  then show ?case by simp
next
  case (Cons x xs)
  from Cons.prems obtain s1 where s1: "f x s = Ret s1" "ofold f xs s1 = Ret s'"
    by (auto simp add: obind_Ret_iff)
  have "Q x s1" using est s1(1) .
  then have "Q x s'"
    using s1(2) pres by (rule ofold_invariant [where P = "Q x", rotated 1]) blast
  then show ?case using Cons.IH [OF s1(2)] by simp
qed

text \<open>A step of \<^verbatim>\<open>__free_l1_shadow_children\<close> leaves no reference at its entry and adds
  none.\<close>

lemma free_l1_child_ref:
  assumes "free_l1_child k pgd i m = Ret m'"
  shows "l1_ref m' (pgd, i) = None"
    and "l1_ref m (pgd', j) = None \<Longrightarrow> l1_ref m' (pgd', j) = None"
proof -
  from assms obtain tbl where tbl: "pgds m pgd = Some tbl"
    by (cases "pgds m pgd") (simp_all add: free_l1_child_def)
  have "(m' = m \<and> tbl i AND L1_TYPE_MASK \<noteq> L1_TYPE_COARSE) \<or>
        l1_ref m' = (l1_ref m)((pgd, i) := None)"
  proof (cases "tbl i AND L1_TYPE_MASK = L1_TYPE_COARSE")
    case False
    then show ?thesis using assms tbl by (auto simp add: free_l1_child_def split: if_splits)
  next
    case True
    then obtain m1 where f: "free_l2_shadow k (tbl i) m = Ret m1"
      and m': "m' = m1\<lparr>pgds := (pgds m1)(pgd \<mapsto> tbl(i := 0))\<rparr>"
      using assms tbl
      by (auto simp add: free_l1_child_def obind_Ret_iff l1_type_distinct)
    have "l1_ref m' = l1_ref (m\<lparr>pgds := (pgds m)(pgd \<mapsto> tbl(i := 0))\<rparr>)"
      by (rule l1_ref_pgds) (simp add: m' free_l2_shadow_pgds [OF f])
    then show ?thesis by (simp add: l1_ref_update [OF tbl] L1_TYPE_COARSE_def)
  qed
  then show "l1_ref m' (pgd, i) = None"
    and "l1_ref m (pgd', j) = None \<Longrightarrow> l1_ref m' (pgd', j) = None"
    using tbl by (auto simp add: l1_ref_not_coarse)
qed

text \<open>\<^verbatim>\<open>kvm_free_l1_shadow\<close> keeps the invariant.\<close>

lemma kvm_free_l1_shadow_inv:
  assumes inv: "shadow_inv m" and run: "kvm_free_l1_shadow k pgd m = Ret m'"
  shows "shadow_inv m'"
proof -
  from run obtain m1 where loop: "ofold (free_l1_child k pgd) [0..<L1_TABLE_ENTRIES] m = Ret m1"
    and m': "m' = m1\<lparr>cpu := (cpu m1)\<lparr>l2_unused_pt := None\<rparr>, pgds := (pgds m1)(pgd := None)\<rparr>"
    by (auto simp add: kvm_free_l1_shadow_def free_l1_shadow_children_def
          free_l1_shadow_children_loop_def obind_Ret_iff)
  have inv1: "shadow_inv m1"
    using _ inv loop
    by (rule ofold_invariant [where P = shadow_inv]) (auto intro: free_l1_child_inv)
  have "\<forall>i\<in>set [0..<L1_TABLE_ENTRIES]. l1_ref m1 (pgd, i) = None"
    using _ _ loop
    by (rule ofold_post [where Q = "\<lambda>i s. l1_ref s (pgd, i) = None"])
       (auto intro: free_l1_child_ref)
  then have none: "l1_ref m1 (pgd, i) = None" for i
    by (cases "i < L1_TABLE_ENTRIES") (auto simp add: l1_ref_def split: option.splits)
  have ref: "l1_ref m' = l1_ref m1"
  proof (rule ext)
    fix key :: "nat \<times> nat"
    obtain r i where key: "key = (r, i)" by (cases key)
    show "l1_ref m' key = l1_ref m1 key"
    proof (cases "r = pgd")
      case True
      then show ?thesis using none [of i] by (simp add: key m' l1_ref_def)
    next
      case False
      then show ?thesis by (simp add: key m' l1_ref_def)
    qed
  qed
  from inv1 have "abs_inv (l1_ref m1) (\<lambda>f. map_option page_private (pages m1 f)) None (free_pages m1)"
    unfolding shadow_inv_def by (rule abs_inv_unused_None)
  then show ?thesis
    unfolding shadow_inv_def ref by (simp add: m')
qed

text \<open>Every call keeps the invariant, and so does a run of calls.\<close>

lemma apply_op_inv:
  assumes inv: "shadow_inv m" and run: "apply_op k op m = Ret (ret, m')"
  shows "shadow_inv m'"
proof (cases op)
  case (Install pgd gva pfn domain priv_ap user_ap exec)
  show ?thesis
  proof (cases "m' = m")
    case True
    then show ?thesis using inv by simp
  next
    case False
    then have "uu_map_gva_to_pfn k pgd gva pfn domain (install_ap k priv_ap user_ap)
               (snd (calc_aps k priv_ap user_ap)) exec m = Ret (ret, m')"
      using run Install by (simp add: map_gva_to_pfn_def split: if_splits)
    then show ?thesis using inv by (rule uu_map_gva_to_pfn_inv [rotated])
  qed
next
  case (Unmap_page pgd gva)
  then show ?thesis using inv run unmap_gva_inv by simp
next
  case (Unmap_section pgd gva)
  then show ?thesis using inv run unmap_gva_section_inv by simp
next
  case (Free_root pgd)
  then show ?thesis using inv run kvm_free_l1_shadow_inv by (auto simp add: obind_Ret_iff)
qed

lemma run_ops_inv:
  assumes "shadow_inv m" and "run_ops k ops m = Ret m'"
  shows "shadow_inv m'"
  using _ assms unfolding run_ops_def
  by (rule ofold_invariant [where P = shadow_inv])
     (auto simp add: obind_Ret_iff intro: apply_op_inv)

text \<open>Freshly allocated roots satisfy the invariant.\<close>

lemma fresh_machine_fields:
  "pages (fresh_machine v fl roots) = Map.empty"
  "free_pages (fresh_machine v fl roots) = fl"
  "l2_unused_pt (cpu (fresh_machine v fl roots)) = None"
  "pgds (fresh_machine v fl roots) pgd = Some tbl \<Longrightarrow> tbl = (\<lambda>i. 0)"
  by (induction roots arbitrary: tbl)
     (auto simp add: fresh_machine_def empty_machine_def kvm_alloc_l1_shadow_def split: if_splits)

lemma fresh_machine_inv:
  assumes "allocator_ok fl"
  shows "shadow_inv (fresh_machine v fl roots)"
proof -
  have "l1_ref (fresh_machine v fl roots) key = None" for key
  proof (cases key)
    case (Pair r i)
    show ?thesis
    proof (cases "pgds (fresh_machine v fl roots) r")
      case None
      then show ?thesis by (simp add: l1_ref_def Pair)
    next
      case (Some tbl)
      then have "tbl = (\<lambda>i. 0)" by (rule fresh_machine_fields(4))
      then show ?thesis using Some by (simp add: l1_ref_def Pair L1_TYPE_COARSE_def)
    qed
  qed
  then have ref: "l1_ref (fresh_machine v fl roots) = (\<lambda>key. None)" by (rule ext)
  show ?thesis
    using assms
    unfolding shadow_inv_def ref fresh_machine_fields
    by (simp add: abs_inv_def allocator_ok_def list_all_iff)
qed

text \<open>
  C2, as the code has it: after any sequence of \<^verbatim>\<open>map_gva_to_pfn\<close>, \<^verbatim>\<open>unmap_gva\<close>,
  \<^verbatim>\<open>unmap_gva_section\<close> and \<^verbatim>\<open>kvm_free_l1_shadow\<close> calls that all return, started from
  freshly allocated roots, the count of every live frame of sub-tables equals the number
  of its four slots that a Coarse level-1 entry of some root points to.
\<close>

theorem counts_match_after_calls:
  assumes "allocator_ok fl" and "run_ops k ops (fresh_machine v fl roots) = Ret m"
  shows "counts_match m"
proof -
  have "shadow_inv (fresh_machine v fl roots)" using assms(1) by (rule fresh_machine_inv)
  then have "shadow_inv m" using assms(2) by (rule run_ops_inv)
  then show ?thesis by (rule shadow_inv_counts)
qed

lemma outcome_case_RetD:
  "(case r of Ret m \<Rightarrow> P m | Bug \<Rightarrow> False | Invalid_access \<Rightarrow> False) \<Longrightarrow> \<exists>m. r = Ret m \<and> P m"
  by (cases r) simp_all

text \<open>A run with installs in three sections, an unmapped page and an unmapped section:
  the frame 0x500 ends with the count 2.\<close>

theorem counts_match_after_calls_witness:
  "allocator_ok [0x500, 0x501] \<and>
   (\<exists>m. example_mixed_run = Ret m \<and> counts_match m \<and>
        map_option page_private (pages m 0x500) = Some 2)"
proof -
  have a: "allocator_ok [0x500, 0x501]" by code_simp
  have "case example_mixed_run of
          Ret m \<Rightarrow> map_option page_private (pages m 0x500) = Some 2
        | Bug \<Rightarrow> False | Invalid_access \<Rightarrow> False"
    by code_simp
  then obtain m where m: "example_mixed_run = Ret m"
    and c: "map_option page_private (pages m 0x500) = Some 2"
    using outcome_case_RetD [where r = example_mixed_run] by blast
  have "counts_match m"
    using m counts_match_after_calls [OF a, of example_kernel example_mixed_ops example_vcpu "[0]" m]
    by (simp add: example_mixed_run_def)
  then show ?thesis using a m c by blast
qed

text \<open>The claim as it is written, with the populated slots, fails: after an install and
  \<^verbatim>\<open>unmap_gva\<close> of the same page the frame has the count 1 and no populated slot.\<close>

theorem count_differs_from_populated_slots:
  "\<exists>m pg. example_unmap_run = Ret m \<and> pages m 0x500 = Some pg \<and>
          page_private pg = 1 \<and> populated_slots pg = 0 \<and> \<not> counts_populated m"
proof -
  have "case example_unmap_run of
          Ret m \<Rightarrow> (case pages m 0x500 of
                      Some pg \<Rightarrow> page_private pg = 1 \<and> populated_slots pg = 0
                    | None \<Rightarrow> False)
        | Bug \<Rightarrow> False | Invalid_access \<Rightarrow> False"
    by code_simp
  then obtain m where m: "example_unmap_run = Ret m"
    and p: "case pages m 0x500 of
              Some pg \<Rightarrow> page_private pg = 1 \<and> populated_slots pg = 0 | None \<Rightarrow> False"
    using outcome_case_RetD [where r = example_unmap_run] by blast
  then obtain pg where pg: "pages m 0x500 = Some pg"
    "page_private pg = 1" "populated_slots pg = 0"
    by (cases "pages m 0x500") simp_all
  then have "\<not> counts_populated m" unfolding counts_populated_def by force
  then show ?thesis using m pg by blast
qed

end
